theory Spec2Isabelle
  imports Main
begin

section \<open>Job worker: \<open>acestep/api/jobs/worker_loops.py\<close>\<close>

subsection \<open>Data model\<close>

text \<open>
  A job record carries \<open>status\<close> (a Python string, compared with the literals
  \<open>"succeeded"\<close> and \<open>"failed"\<close>), an optional \<open>result\<close> (a dict, here an
  association list, falsy when \<open>None\<close> or empty), an optional \<open>error\<close> message (falsy
  when \<open>None\<close> or empty), an optional \<open>progress_queue\<close> (an \<open>asyncio.Queue\<close>, here the
  list of the events it holds, oldest first; \<open>put\<close> appends) and an optional
  \<open>done_event\<close> (the flag \<open>was_set\<close> of \<open>_DoneEvent\<close>).
\<close>

type_synonym payload = "(string \<times> string) list"

datatype event = EvResult payload | EvError string | EvDone

record job_record =
  status :: string
  result :: "payload option"
  error :: "string option"
  progress_queue :: "event list option"
  done_event :: "bool option"

text \<open>
  The calls \<open>process_queue_item\<close> makes on its collaborators, in program order.
\<close>

datatype call =
    StoreGet string
  | PendingRemove string
  | RunOneJob string
  | Put event
  | DoneEventSet
  | MarkFailed string string
  | CleanupJobTempFiles string
  | TaskDone

text \<open>
  The state the function works on: the store of \<open>test_fakes.py\<close> (\<open>_FakeStore.record\<close>
  and \<open>_FakeStore.mark_failed_calls\<close>), the application state (\<open>pending_ids\<close>, and the
  counter of \<open>_FakeJobQueue\<close>), and the log of collaborator calls.
\<close>

record worker_state =
  store_record :: "job_record option"
  mark_failed_calls :: "(string \<times> string) list"
  pending_ids :: "string list"
  task_done_calls :: nat
  calls :: "call list"

text \<open>
  What awaiting \<open>run_one_job(job_id, req)\<close> does: it returns, or it raises an
  instance of \<open>Exception\<close> whose \<open>str\<close> is the message carried by \<open>Raised\<close>. The
  routine receives the job id, the request and the record of the store, and yields its
  outcome together with the in-place mutation it performs on the record object.
  The cancellation of the worker task, which \<open>asyncio\<close> can deliver at any \<open>await\<close> and
  which is not an \<open>Exception\<close>, is outside this sequential model.
\<close>

datatype run_outcome = Returned | Raised string

type_synonym 'req job_routine =
  "string \<Rightarrow> 'req \<Rightarrow> job_record option \<Rightarrow> run_outcome \<times> (job_record \<Rightarrow> job_record)"

subsection \<open>Collaborators\<close>

text \<open>
  The operations of the store, the pending ids, the queue and the event are those of
  the fakes and of the Python containers: apart from \<open>remove\<close>, they return. Each one
  appends its call to the log.
\<close>

definition log_call :: "call \<Rightarrow> worker_state \<Rightarrow> worker_state" where
  "log_call c s = s\<lparr>calls := calls s @ [c]\<rparr>"

text \<open>\<open>_FakeStore.get\<close>: returns the configured record (the state is only logged).\<close>

definition store_get :: "string \<Rightarrow> worker_state \<Rightarrow> worker_state" where
  "store_get job_id s = log_call (StoreGet job_id) s"

text \<open>
  \<open>_FakeStore.mark_failed\<close>: records the call; sets \<open>status\<close> and \<open>error\<close> of the
  record when there is one.
\<close>

definition mark_failed :: "string \<Rightarrow> string \<Rightarrow> worker_state \<Rightarrow> worker_state" where
  "mark_failed job_id err s =
     log_call (MarkFailed job_id err)
       (s\<lparr>mark_failed_calls := mark_failed_calls s @ [(job_id, err)],
          store_record := map_option (\<lambda>r. r\<lparr>status := ''failed'', error := Some err\<rparr>)
                            (store_record s)\<rparr>)"

text \<open>
  \<open>list.remove\<close> (and \<open>deque.remove\<close>): removes the first occurrence, raises
  \<open>ValueError\<close> when there is none.
\<close>

datatype value_error = ValueError

definition list_remove :: "'a \<Rightarrow> 'a list \<Rightarrow> value_error + 'a list" where
  "list_remove x xs = (if x \<in> set xs then Inr (remove1 x xs) else Inl ValueError)"

text \<open>
  The block \<open>async with app_state.pending_lock: try: pending_ids.remove(job_id)
  except ValueError: pass\<close>.
\<close>

definition pending_ids_remove :: "string \<Rightarrow> worker_state \<Rightarrow> worker_state" where
  "pending_ids_remove job_id s =
     (case list_remove job_id (pending_ids s) of
        Inl ValueError \<Rightarrow> log_call (PendingRemove job_id) s
      | Inr ids \<Rightarrow> log_call (PendingRemove job_id) (s\<lparr>pending_ids := ids\<rparr>))"

text \<open>\<open>await run_one_job(job_id, req)\<close>: the record object is mutated in place.\<close>

definition await_run_one_job ::
  "'req job_routine \<Rightarrow> string \<Rightarrow> 'req \<Rightarrow> worker_state \<Rightarrow> run_outcome \<times> worker_state" where
  "await_run_one_job run_one_job job_id req s =
     (case run_one_job job_id req (store_record s) of
        (outcome, mutate) \<Rightarrow>
          (outcome, log_call (RunOneJob job_id)
                      (s\<lparr>store_record := map_option mutate (store_record s)\<rparr>)))"

text \<open>\<open>await rec.progress_queue.put(ev)\<close>, called only where the queue exists.\<close>

definition put :: "event \<Rightarrow> worker_state \<Rightarrow> worker_state" where
  "put ev s =
     log_call (Put ev)
       (s\<lparr>store_record :=
            map_option (\<lambda>r. r\<lparr>progress_queue := map_option (\<lambda>q. q @ [ev]) (progress_queue r)\<rparr>)
              (store_record s)\<rparr>)"

text \<open>\<open>rec.done_event.set()\<close>, called only where the event exists.\<close>

definition done_event_set :: "worker_state \<Rightarrow> worker_state" where
  "done_event_set s =
     log_call DoneEventSet
       (s\<lparr>store_record :=
            map_option (\<lambda>r. r\<lparr>done_event := map_option (\<lambda>_. True) (done_event r)\<rparr>)
              (store_record s)\<rparr>)"

text \<open>
  \<open>await cleanup_job_temp_files(job_id)\<close>: the collaborator is represented by its call,
  from which it returns.
\<close>

definition cleanup_job_temp_files :: "string \<Rightarrow> worker_state \<Rightarrow> worker_state" where
  "cleanup_job_temp_files job_id s = log_call (CleanupJobTempFiles job_id) s"

text \<open>\<open>_FakeJobQueue.task_done\<close>.\<close>

definition task_done :: "worker_state \<Rightarrow> worker_state" where
  "task_done s = log_call TaskDone (s\<lparr>task_done_calls := task_done_calls s + 1\<rparr>)"

text \<open>
  Python's \<open>rec and f(rec)\<close> for a record that is \<open>None\<close> or an object: the test
  \<open>P\<close> is read from the current state of the record object.
\<close>

definition rec_and :: "(job_record \<Rightarrow> bool) \<Rightarrow> worker_state \<Rightarrow> bool" where
  "rec_and P s = (case store_record s of None \<Rightarrow> False | Some r \<Rightarrow> P r)"

text \<open>\<open>rec.error or "Generation failed"\<close>.\<close>

definition error_or :: "string option \<Rightarrow> string \<Rightarrow> string" where
  "error_or e fallback = (case e of None \<Rightarrow> fallback | Some m \<Rightarrow> if m = [] then fallback else m)"

subsection \<open>\<open>process_queue_item\<close>\<close>

text \<open>The body of the \<open>try\<close> after \<open>run_one_job\<close> has returned (source lines 38-45).\<close>

definition notify_returned :: "worker_state \<Rightarrow> worker_state" where
  "notify_returned s =
     (let s1 =
        (case store_record s of
           None \<Rightarrow> s
         | Some r \<Rightarrow>
             if progress_queue r \<noteq> None then
               put EvDone
                 (let elif_failed =
                        (if status r = ''failed''
                         then put (EvError (error_or (error r) ''Generation failed'')) s
                         else s)
                  in case result r of
                       None \<Rightarrow> elif_failed
                     | Some res \<Rightarrow>
                         if status r = ''succeeded'' \<and> res \<noteq> []
                         then put (EvResult res) s
                         else elif_failed)
             else s)
      in if rec_and (\<lambda>r. done_event r \<noteq> None) s1 then done_event_set s1 else s1)"

text \<open>The handler \<open>except Exception as exc\<close> (source lines 47-54); \<open>msg\<close> is \<open>str(exc)\<close>.\<close>

definition notify_raised :: "string \<Rightarrow> string \<Rightarrow> worker_state \<Rightarrow> worker_state" where
  "notify_raised job_id msg s =
     (let s1 = (if rec_and (\<lambda>r. status r \<noteq> ''succeeded'' \<and> status r \<noteq> ''failed'') s
                then mark_failed job_id msg s else s);
          s2 = (if rec_and (\<lambda>r. progress_queue r \<noteq> None) s1
                then put EvDone (put (EvError msg) s1) else s1)
      in if rec_and (\<lambda>r. done_event r \<noteq> None) s2 then done_event_set s2 else s2)"

definition process_queue_item ::
  "string \<Rightarrow> 'req \<Rightarrow> worker_state \<Rightarrow> 'req job_routine \<Rightarrow> worker_state" where
  "process_queue_item job_id req app_state run_one_job =
     (let s1 = store_get job_id app_state;
          s2 = pending_ids_remove job_id s1
      in case await_run_one_job run_one_job job_id req s2 of
           (outcome, s3) \<Rightarrow>
             task_done
               (cleanup_job_temp_files job_id
                  (case outcome of
                     Returned \<Rightarrow> notify_returned s3
                   | Raised msg \<Rightarrow> notify_raised job_id msg s3)))"

text \<open>Observations on the call log.\<close>

definition puts_of :: "call list \<Rightarrow> event list" where
  "puts_of cs = concat (map (\<lambda>c. case c of Put ev \<Rightarrow> [ev] | _ \<Rightarrow> []) cs)"

definition count_call :: "call \<Rightarrow> call list \<Rightarrow> nat" where
  "count_call c cs = length (filter (\<lambda>x. x = c) cs)"

definition is_mark_failed :: "call \<Rightarrow> bool" where
  "is_mark_failed c = (case c of MarkFailed _ _ \<Rightarrow> True | _ \<Rightarrow> False)"

definition is_cleanup :: "call \<Rightarrow> bool" where
  "is_cleanup c = (case c of CleanupJobTempFiles _ \<Rightarrow> True | _ \<Rightarrow> False)"

subsection \<open>Scenarios\<close>

text \<open>
  Job \<open>"j1"\<close>: a queued record with no progress channel and no completion signal, and
  a routine that records a success and returns. Job \<open>"j2"\<close>: a queued record with both,
  and a routine that raises \<open>RuntimeError("boom")\<close>. Job \<open>"j3"\<close>: a routine that records
  a success and then raises. Job \<open>"j4"\<close>: an id the store does not know.
\<close>

definition j1_record :: job_record where
  "j1_record = \<lparr>status = ''queued'', result = None, error = None,
                 progress_queue = None, done_event = None\<rparr>"

definition j1_state :: worker_state where
  "j1_state = \<lparr>store_record = Some j1_record, mark_failed_calls = [],
                pending_ids = [], task_done_calls = 0, calls = []\<rparr>"

definition j2_record :: job_record where
  "j2_record = \<lparr>status = ''queued'', result = None, error = None,
                 progress_queue = Some [], done_event = Some False\<rparr>"

definition j2_state :: worker_state where
  "j2_state = \<lparr>store_record = Some j2_record, mark_failed_calls = [],
                pending_ids = [''j2''], task_done_calls = 0, calls = []\<rparr>"

definition j4_state :: worker_state where
  "j4_state = \<lparr>store_record = None, mark_failed_calls = [],
                pending_ids = [''j4''], task_done_calls = 0, calls = []\<rparr>"

definition succeed :: "job_record \<Rightarrow> job_record" where
  "succeed r = r\<lparr>status := ''succeeded'', result := Some [(''audio'', ''out.wav'')]\<rparr>"

definition run_ok :: "unit job_routine" where
  "run_ok job_id req r = (Returned, succeed)"

definition raise_boom :: "unit job_routine" where
  "raise_boom job_id req r = (Raised ''boom'', (\<lambda>r. r))"

definition succeed_then_raise :: "unit job_routine" where
  "succeed_then_raise job_id req r = (Raised ''late'', succeed)"

section \<open>Store cleanup loop: \<open>run_job_store_cleanup_loop\<close>\<close>

text \<open>
  An exception is an instance of \<open>Exception\<close>, known by its \<open>str\<close>, or
  \<open>asyncio.CancelledError\<close>, which is not an \<open>Exception\<close> and which the loop handles
  first. A call returns a value or raises.

  The store is \<open>_FakeStore\<close> of \<open>test_fakes.py\<close>: \<open>cleanup_returns\<close> holds integers and
  \<open>Exception\<close> instances, \<open>cleanup_call_count\<close> counts the calls, \<open>stats\<close> is the payload
  of \<open>get_stats\<close>. The two messages given to \<open>log_fn\<close> are kept as constructors with the
  values the f-strings format. The calls of the loop are logged in program order, the
  awaited \<open>sleep_fn\<close> and \<open>cleanup_old_jobs\<close> with what they returned or raised.
\<close>

datatype exc = Exception string | CancelledError

datatype 'a outcome = Returns 'a | Raises exc

datatype cleanup_return = Count int | Fails string

record cleanup_store =
  cleanup_returns :: "cleanup_return list"
  cleanup_call_count :: nat
  stats :: "(string \<times> int) list"

datatype log_line = CleanedUp int "(string \<times> int) list" | CleanupError string

datatype loop_call =
    Sleep int "unit outcome"
  | CleanupOldJobs "int outcome"
  | GetStats
  | Log log_line

record loop_state =
  store :: cleanup_store
  loop_calls :: "loop_call list"

text \<open>
  \<open>_FakeStore.cleanup_old_jobs\<close>: the index is \<open>min(count, len - 1)\<close>, the count is
  incremented before the list is read, an empty list raises \<open>IndexError\<close> (index
  \<open>-1\<close>), an \<open>Exception\<close> entry is raised and an integer entry is returned.
\<close>

definition cleanup_old_jobs :: "cleanup_store \<Rightarrow> int outcome \<times> cleanup_store" where
  "cleanup_old_jobs st =
     (let index = min (int (cleanup_call_count st)) (int (length (cleanup_returns st)) - 1);
          st' = st\<lparr>cleanup_call_count := cleanup_call_count st + 1\<rparr>
      in if index < 0 then (Raises (Exception ''list index out of range''), st')
         else (case cleanup_returns st ! nat index of
                 Fails m \<Rightarrow> (Raises (Exception m), st')
               | Count n \<Rightarrow> (Returns n, st')))"

definition get_stats :: "cleanup_store \<Rightarrow> (string \<times> int) list" where
  "get_stats st = stats st"

definition logged :: "loop_call \<Rightarrow> loop_state \<Rightarrow> loop_state" where
  "logged c s = s\<lparr>loop_calls := loop_calls s @ [c]\<rparr>"

text \<open>
  The body of the \<open>try\<close> of one iteration (source lines 70-74); \<open>slept\<close> is what
  awaiting \<open>sleep_fn(cleanup_interval_seconds)\<close> does in this iteration.
\<close>

definition try_body :: "int \<Rightarrow> unit outcome \<Rightarrow> loop_state \<Rightarrow> unit outcome \<times> loop_state" where
  "try_body cleanup_interval_seconds slept s =
     (let s1 = logged (Sleep cleanup_interval_seconds slept) s
      in case slept of
           Raises e \<Rightarrow> (Raises e, s1)
         | Returns _ \<Rightarrow>
             (case cleanup_old_jobs (store s1) of
                (r, st') \<Rightarrow>
                  (let s2 = logged (CleanupOldJobs r) (s1\<lparr>store := st'\<rparr>)
                   in case r of
                        Raises e \<Rightarrow> (Raises e, s2)
                      | Returns removed \<Rightarrow>
                          if removed > 0 then
                            (let s3 = logged GetStats s2;
                                 stats = get_stats (store s3)
                             in (Returns (), logged (Log (CleanedUp removed stats)) s3))
                          else (Returns (), s2))))"

text \<open>
  One iteration with its handlers: \<open>CancelledError\<close> breaks, any \<open>Exception\<close> is
  logged and the loop continues.
\<close>

datatype control = Continue | Break

definition iteration :: "int \<Rightarrow> unit outcome \<Rightarrow> loop_state \<Rightarrow> control \<times> loop_state" where
  "iteration cleanup_interval_seconds slept s =
     (case try_body cleanup_interval_seconds slept s of
        (Returns _, s') \<Rightarrow> (Continue, s')
      | (Raises CancelledError, s') \<Rightarrow> (Break, s')
      | (Raises (Exception msg), s') \<Rightarrow> (Continue, logged (Log (CleanupError msg)) s'))"

text \<open>
  The loop, run against the successive outcomes of \<open>sleep_fn\<close>. It has \<open>Exited\<close> when an
  iteration broke out of it; when the outcomes are used up it is \<open>Suspended\<close> in its
  next sleep, still running.
\<close>

datatype loop_status = Exited | Suspended

fun run_job_store_cleanup_loop ::
  "int \<Rightarrow> unit outcome list \<Rightarrow> loop_state \<Rightarrow> loop_status \<times> loop_state" where
  "run_job_store_cleanup_loop cleanup_interval_seconds [] s = (Suspended, s)"
| "run_job_store_cleanup_loop cleanup_interval_seconds (slept # rest) s =
     (case iteration cleanup_interval_seconds slept s of
        (Break, s') \<Rightarrow> (Exited, s')
      | (Continue, s') \<Rightarrow> run_job_store_cleanup_loop cleanup_interval_seconds rest s')"

text \<open>Observations on the call log of the loop.\<close>

definition stats_logged :: "loop_call list \<Rightarrow> int list" where
  "stats_logged cs = concat (map (\<lambda>c. case c of Log (CleanedUp n _) \<Rightarrow> [n] | _ \<Rightarrow> []) cs)"

definition positive_sweeps :: "loop_call list \<Rightarrow> int list" where
  "positive_sweeps cs =
     concat (map (\<lambda>c. case c of CleanupOldJobs (Returns n) \<Rightarrow> if n > 0 then [n] else [] | _ \<Rightarrow> []) cs)"

definition count_get_stats :: "loop_call list \<Rightarrow> nat" where
  "count_get_stats cs = length (filter (\<lambda>c. c = GetStats) cs)"

definition sleeps_of :: "loop_call list \<Rightarrow> (int \<times> unit outcome) list" where
  "sleeps_of cs = concat (map (\<lambda>c. case c of Sleep i r \<Rightarrow> [(i, r)] | _ \<Rightarrow> []) cs)"

definition errors_logged :: "loop_call list \<Rightarrow> string list" where
  "errors_logged cs = concat (map (\<lambda>c. case c of Log (CleanupError m) \<Rightarrow> [m] | _ \<Rightarrow> []) cs)"

definition failures_raised :: "loop_call list \<Rightarrow> string list" where
  "failures_raised cs =
     concat (map (\<lambda>c. case c of
                         Sleep _ (Raises (Exception m)) \<Rightarrow> [m]
                       | CleanupOldJobs (Raises (Exception m)) \<Rightarrow> [m]
                       | _ \<Rightarrow> []) cs)"

definition until_cancelled :: "unit outcome list \<Rightarrow> unit outcome list" where
  "until_cancelled script =
     take (Suc (length (takeWhile (\<lambda>r. r \<noteq> Raises CancelledError) script))) script"

definition tick_ok :: "int \<Rightarrow> unit outcome \<Rightarrow> loop_call list \<Rightarrow> bool" where
  "tick_ok i slept new \<longleftrightarrow>
     sleeps_of new = [(i, slept)] \<and> stats_logged new = positive_sweeps new \<and>
     count_get_stats new = length (positive_sweeps new) \<and>
     errors_logged new = failures_raised new"

text \<open>
  The scenario of the specification: \<open>cleanup_old_jobs\<close> returns \<open>0\<close>, then \<open>3\<close>, then
  raises \<open>RuntimeError("boom")\<close>, over three ticks.
\<close>

definition scenario_store :: cleanup_store where
  "scenario_store = \<lparr>cleanup_returns = [Count 0, Count 3, Fails ''boom''],
                      cleanup_call_count = 0, stats = [(''total'', 0)]\<rparr>"

definition scenario_state :: loop_state where
  "scenario_state = \<lparr>store = scenario_store, loop_calls = []\<rparr>"

definition three_ticks :: "unit outcome list" where
  "three_ticks = [Returns (), Returns (), Returns ()]"

section \<open>Audio paths: \<open>acestep/api/http/release_task_audio_paths.py\<close>\<close>

subsection \<open>POSIX paths\<close>

text \<open>
  The functions of \<open>os.path\<close> the validator calls, as \<open>posixpath\<close> defines them (the
  separator is \<open>/\<close>).
\<close>

definition sep :: char where
  "sep = CHR ''/''"

text \<open>\<open>str.split(os.sep)\<close> and \<open>os.sep.join\<close>.\<close>

fun split_sep :: "string \<Rightarrow> string list" where
  "split_sep [] = [[]]"
| "split_sep (c # cs) =
     (if c = sep then [] # split_sep cs
      else (case split_sep cs of
              [] \<Rightarrow> [[c]]
            | w # ws \<Rightarrow> (c # w) # ws))"

fun join_sep :: "string list \<Rightarrow> string" where
  "join_sep [] = []"
| "join_sep [w] = w"
| "join_sep (w # ws) = w @ sep # join_sep ws"

text \<open>\<open>str.startswith\<close>, \<open>os.path.isabs\<close>.\<close>

definition startswith :: "string \<Rightarrow> string \<Rightarrow> bool" where
  "startswith s pre = (take (length pre) s = pre)"

definition isabs :: "string \<Rightarrow> bool" where
  "isabs s = startswith s [sep]"

text \<open>
  \<open>posixpath.normpath\<close>: empty and \<open>.\<close> components are dropped, a \<open>..\<close> removes the
  component before it, and is kept at the start of a relative path or after another
  \<open>..\<close>; exactly two leading slashes are kept, three or more become one.
\<close>

definition normpath_step :: "nat \<Rightarrow> string list \<Rightarrow> string \<Rightarrow> string list" where
  "normpath_step initial_slashes new_comps part =
     (if part = [] \<or> part = ''.'' then new_comps
      else if part \<noteq> ''..'' \<or> (initial_slashes = 0 \<and> new_comps = [])
                \<or> (new_comps \<noteq> [] \<and> last new_comps = ''..'')
           then new_comps @ [part]
      else if new_comps \<noteq> [] then butlast new_comps
      else new_comps)"

definition normpath :: "string \<Rightarrow> string" where
  "normpath path =
     (if path = [] then ''.''
      else
        let initial_slashes =
              (if startswith path [sep] then
                 (if startswith path [sep, sep] \<and> \<not> startswith path [sep, sep, sep] then 2 else 1)
               else 0);
            comps = foldl (normpath_step initial_slashes) [] (split_sep path);
            joined = replicate initial_slashes sep @ join_sep comps
        in if joined = [] then ''.'' else joined)"

text \<open>\<open>posixpath.join\<close> of two paths and \<open>posixpath.abspath\<close> for a working directory.\<close>

definition join_path :: "string \<Rightarrow> string \<Rightarrow> string" where
  "join_path a b =
     (if startswith b [sep] then b
      else if a = [] \<or> last a = sep then a @ b
      else a @ sep # b)"

definition abspath :: "string \<Rightarrow> string \<Rightarrow> string" where
  "abspath cwd path = normpath (if isabs path then path else join_path cwd path)"

text \<open>
  The components of a path that \<open>posixpath.commonpath\<close> compares: empty and \<open>.\<close>
  components are dropped.
\<close>

definition components :: "string \<Rightarrow> string list" where
  "components p = filter (\<lambda>c. c \<noteq> [] \<and> c \<noteq> ''.'') (split_sep p)"

text \<open>
  \<open>posixpath.commonpath\<close> of two paths: \<open>ValueError\<close> when one is absolute and the
  other is not; otherwise the longest common prefix of their components, with a leading
  separator for absolute paths.
\<close>

fun common_prefix :: "'a list \<Rightarrow> 'a list \<Rightarrow> 'a list" where
  "common_prefix (x # xs) (y # ys) = (if x = y then x # common_prefix xs ys else [])"
| "common_prefix _ _ = []"

definition commonpath2 :: "string \<Rightarrow> string \<Rightarrow> value_error + string" where
  "commonpath2 p1 p2 =
     (if (take 1 p1 = [sep]) \<noteq> (take 1 p2 = [sep]) then Inl ValueError
      else
        let s1 = components p1;
            s2 = components p2;
            prefix = (if take 1 p1 = [sep] then [sep] else [])
        in Inr (prefix @ join_sep (common_prefix s1 s2)))"

subsection \<open>\<open>validate_audio_path\<close>\<close>

text \<open>
  What the file system decides is a parameter: \<open>tempfile.gettempdir()\<close>, and
  \<open>os.path.realpath\<close>, which returns the real path or raises \<open>ValueError\<close> (as it does
  for a path with a NUL byte). The function raises \<open>HTTPException\<close>, which carries
  \<open>status_code\<close> and \<open>detail\<close>, or lets the \<open>ValueError\<close> of \<open>realpath\<close> through: both
  calls of \<open>realpath\<close> stand before the \<open>try\<close>.
\<close>

record fs_env =
  gettempdir :: string
  realpath :: "string \<Rightarrow> value_error + string"

datatype path_exception = HTTPException nat string | UncaughtValueError

text \<open>
  The local \<open>is_in_temp\<close> (source lines 32-35), with its \<open>except ValueError\<close>.
\<close>

definition is_in_temp :: "string \<Rightarrow> string \<Rightarrow> bool" where
  "is_in_temp system_temp requested_path =
     (case commonpath2 system_temp requested_path of
        Inl ValueError \<Rightarrow> False
      | Inr common \<Rightarrow> common = system_temp)"

definition validate_audio_path :: "fs_env \<Rightarrow> string option \<Rightarrow> path_exception + string option" where
  "validate_audio_path env path_opt =
     (case path_opt of
        None \<Rightarrow> Inr None
      | Some path \<Rightarrow>
          if path = [] then Inr None
          else
            case realpath env (gettempdir env) of
              Inl ValueError \<Rightarrow> Inl UncaughtValueError
            | Inr system_temp \<Rightarrow>
                (case realpath env path of
                   Inl ValueError \<Rightarrow> Inl UncaughtValueError
                 | Inr requested_path \<Rightarrow>
                     if is_in_temp system_temp requested_path then Inr (Some requested_path)
                     else if isabs path then
                       Inl (HTTPException 400 ''absolute audio file paths are not allowed'')
                     else if ''..'' \<in> set (split_sep (normpath path)) then
                       Inl (HTTPException 400 ''path traversal in audio file paths is not allowed'')
                     else Inr (Some path)))"

text \<open>
  In the words of the specification: a path is inside a directory when the components
  of the directory are the leading components of the path.
\<close>

definition inside_directory :: "string \<Rightarrow> string \<Rightarrow> bool" where
  "inside_directory directory path =
     (take (length (components directory)) (components path) = components directory)"

text \<open>Lists of components that are not empty and hold no separator.\<close>

definition clean_parts :: "string list \<Rightarrow> bool" where
  "clean_parts ws = (\<forall>w \<in> set ws. w \<noteq> [] \<and> sep \<notin> set w)"

text \<open>
  A file system without symbolic links, where \<open>realpath\<close> is \<open>abspath\<close> for the
  working directory \<open>cwd\<close> and raises \<open>ValueError\<close> on a NUL byte; an application
  started from \<open>/home/user/app\<close> and one started from a directory under the temporary
  directory.
\<close>

definition posix_env :: "string \<Rightarrow> string \<Rightarrow> fs_env" where
  "posix_env cwd tmp =
     \<lparr>gettempdir = tmp,
      realpath = (\<lambda>p. if CHR 0x00 \<in> set p then Inl ValueError else Inr (abspath cwd p))\<rparr>"

definition app_env :: fs_env where
  "app_env = posix_env ''/home/user/app'' ''/tmp''"

definition work_env :: fs_env where
  "work_env = posix_env ''/tmp/work'' ''/tmp''"

section \<open>Uploads: \<open>save_upload_to_temp\<close>\<close>

text \<open>
  The upload is \<open>_FakeUpload\<close> of the test module: the bytes, the read offset, the
  file name (which may be \<open>None\<close>) and the flag set by \<open>close\<close>.
\<close>

type_synonym bytes = "char list"

record upload_file =
  payload :: bytes
  offset :: nat
  filename :: "string option"
  closed :: bool

text \<open>\<open>_FakeUpload.read(size)\<close>: the next chunk, empty at the end of the payload.\<close>

definition upload_read :: "upload_file \<Rightarrow> nat \<Rightarrow> bytes \<times> upload_file" where
  "upload_read u n =
     (if offset u \<ge> length (payload u) then ([], u)
      else
        let stop = min (offset u + n) (length (payload u));
            chunk = take (stop - offset u) (drop (offset u) (payload u))
        in (chunk, u\<lparr>offset := stop\<rparr>))"

text \<open>
  What the environment may do to the calls inside the \<open>try\<close> statement: \<open>open\<close> may
  raise, the \<open>n\<close>-th \<open>read\<close> and the \<open>n\<close>-th \<open>write\<close> may raise (an \<open>Exception\<close> with the
  given message), and \<open>os.remove\<close> and \<open>upload.close\<close> may raise, which the source passes
  over. \<open>os.close(fd)\<close>, which precedes the \<open>try\<close>, may raise as well.
\<close>

record io_faults =
  os_close_fault :: "string option"
  open_fault :: "string option"
  read_fault :: "nat \<Rightarrow> string option"
  write_fault :: "nat \<Rightarrow> string option"
  remove_fault :: "string option"
  close_fault :: "string option"

text \<open>
  \<open>Path(name).suffix\<close> and \<open>tempfile.mkstemp\<close> are parameters: for a prefix and a
  suffix, \<open>mkstemp\<close> creates a file and returns its path (\<open>Inr\<close>), or raises an
  \<open>OSError\<close> with the given message (\<open>Inl\<close>).
\<close>

record temp_env =
  path_suffix :: "string \<Rightarrow> string"
  mkstemp :: "string \<Rightarrow> string \<Rightarrow> string + string"

text \<open>The calls of \<open>save_upload_to_temp\<close>, in program order, and the state.\<close>

datatype io_call =
    Mkstemp string string
  | OsClose
  | FileOpen string
  | UploadRead nat
  | FileWrite bytes
  | FileClose
  | OsRemove string
  | UploadClose

record io_state =
  files :: "string \<Rightarrow> bytes option"
  upload :: upload_file
  io_calls :: "io_call list"

definition io_log :: "io_call \<Rightarrow> io_state \<Rightarrow> io_state" where
  "io_log c s = s\<lparr>io_calls := io_calls s @ [c]\<rparr>"

definition file_write :: "string \<Rightarrow> bytes \<Rightarrow> io_state \<Rightarrow> io_state" where
  "file_write path chunk s =
     io_log (FileWrite chunk)
       (s\<lparr>files := (files s)(path \<mapsto> (case files s path of None \<Rightarrow> [] | Some old \<Rightarrow> old) @ chunk)\<rparr>)"

text \<open>
  The loop \<open>while True: chunk = await upload.read(1024 * 1024) ...\<close>; \<open>n\<close> counts the
  iterations. It yields the message of the exception that left it, if any. It
  terminates because every non-empty chunk advances the read offset.
\<close>

function write_chunks :: "io_faults \<Rightarrow> string \<Rightarrow> nat \<Rightarrow> io_state \<Rightarrow> string option \<times> io_state" where
  "write_chunks faults path n s =
     (if read_fault faults n \<noteq> None then (read_fault faults n, io_log (UploadRead (1024 * 1024)) s)
      else
        let chunk = fst (upload_read (upload s) (1024 * 1024));
            s1 = io_log (UploadRead (1024 * 1024)) (s\<lparr>upload := snd (upload_read (upload s) (1024 * 1024))\<rparr>)
        in if chunk = [] then (None, s1)
           else if write_fault faults n \<noteq> None then (write_fault faults n, io_log (FileWrite chunk) s1)
           else write_chunks faults path (Suc n) (file_write path chunk s1))"
  by pat_completeness auto
termination
  by (relation "measure (\<lambda>(faults, path, n, s). length (payload (upload s)) - offset (upload s))")
     (auto simp: upload_read_def file_write_def io_log_def Let_def split: if_splits)

text \<open>
  The body of the \<open>try\<close>: \<open>with open(path, "wb") as file_obj\<close> truncates the file, runs
  the loop and closes the file on the way out.
\<close>

definition try_write :: "io_faults \<Rightarrow> string \<Rightarrow> io_state \<Rightarrow> string option \<times> io_state" where
  "try_write faults path s =
     (if open_fault faults \<noteq> None then (open_fault faults, io_log (FileOpen path) s)
      else
        case write_chunks faults path 0 (io_log (FileOpen path) (s\<lparr>files := (files s)(path \<mapsto> [])\<rparr>)) of
          (raised, s') \<Rightarrow> (raised, io_log FileClose s'))"

text \<open>
  \<open>try: os.remove(path) except Exception: pass\<close> and
  \<open>try: await upload.close() except Exception: pass\<close>.
\<close>

definition os_remove :: "io_faults \<Rightarrow> string \<Rightarrow> io_state \<Rightarrow> io_state" where
  "os_remove faults path s =
     io_log (OsRemove path)
       (if remove_fault faults \<noteq> None \<or> files s path = None then s
        else s\<lparr>files := (files s)(path := None)\<rparr>)"

definition upload_close :: "io_faults \<Rightarrow> io_state \<Rightarrow> io_state" where
  "upload_close faults s =
     io_log UploadClose
       (if close_fault faults \<noteq> None then s
        else s\<lparr>upload := (upload s)\<lparr>closed := True\<rparr>\<rparr>)"

text \<open>
  \<open>save_upload_to_temp\<close>: \<open>Inr path\<close> for the returned path, \<open>Inl msg\<close> for the
  exception that leaves the function. \<open>mkstemp\<close> and \<open>os.close(fd)\<close> (source lines
  64-65) stand before the \<open>try\<close>: an exception of theirs leaves the function at once.
\<close>

definition filename_or_empty :: "string option \<Rightarrow> string" where
  "filename_or_empty name = (case name of None \<Rightarrow> [] | Some n \<Rightarrow> n)"

definition upload_suffix :: "temp_env \<Rightarrow> io_state \<Rightarrow> string" where
  "upload_suffix env s = path_suffix env (filename_or_empty (filename (upload s)))"

definition save_upload_to_temp ::
  "temp_env \<Rightarrow> io_faults \<Rightarrow> string \<Rightarrow> io_state \<Rightarrow> (string + string) \<times> io_state" where
  "save_upload_to_temp env faults prefix s =
     (let suffix = upload_suffix env s;
          s0 = io_log (Mkstemp (prefix @ ''_'') suffix) s
      in case mkstemp env (prefix @ ''_'') suffix of
           Inl msg \<Rightarrow> (Inl msg, s0)
         | Inr path \<Rightarrow>
             (let s1 = io_log OsClose (s0\<lparr>files := (files s0)(path \<mapsto> [])\<rparr>)
              in case os_close_fault faults of
                   Some msg \<Rightarrow> (Inl msg, s1)
                 | None \<Rightarrow>
                     (case try_write faults path s1 of
                        (None, s2) \<Rightarrow> (Inr path, upload_close faults s2)
                      | (Some msg, s2) \<Rightarrow>
                          (Inl msg, upload_close faults (os_remove faults path s2)))))"

text \<open>Observations on the call log, and the upload of the test module.\<close>

definition is_transfer :: "io_call \<Rightarrow> bool" where
  "is_transfer c = (case c of UploadRead _ \<Rightarrow> True | FileWrite _ \<Rightarrow> True | _ \<Rightarrow> False)"

definition count_io :: "io_call \<Rightarrow> io_call list \<Rightarrow> nat" where
  "count_io c cs = length (filter (\<lambda>x. x = c) cs)"

definition is_write_phase :: "io_call \<Rightarrow> bool" where
  "is_write_phase c =
     (case c of FileOpen _ \<Rightarrow> True | UploadRead _ \<Rightarrow> True | FileWrite _ \<Rightarrow> True
      | FileClose \<Rightarrow> True | _ \<Rightarrow> False)"

definition no_faults :: io_faults where
  "no_faults = \<lparr>os_close_fault = None, open_fault = None, read_fault = (\<lambda>_. None), write_fault = (\<lambda>_. None),
                remove_fault = None, close_fault = None\<rparr>"

definition test_env :: temp_env where
  "test_env = \<lparr>path_suffix = (\<lambda>_. ''.wav''), mkstemp = (\<lambda>_ _. Inr ''mock/path/sample.wav'')\<rparr>"

definition test_state :: io_state where
  "test_state = \<lparr>files = (\<lambda>_. None),
     upload = \<lparr>payload = ''abc123'', offset = 0, filename = Some ''sample.wav'', closed = False\<rparr>,
     io_calls = []\<rparr>"


definition disk_full :: io_faults where
  "disk_full = no_faults\<lparr>write_fault := (\<lambda>n. if n = 0 then Some ''disk full'' else None)\<rparr>"

text \<open>
  \<open>PurePath.suffix\<close>: the name is the last component (empty and \<open>.\<close> components
  dropped), the suffix starts at its last dot, unless that dot is the first or the last
  character of the name.
\<close>

definition pathlib_suffix :: "string \<Rightarrow> string" where
  "pathlib_suffix p =
     (let name = (case components p of [] \<Rightarrow> [] | c # cs \<Rightarrow> last (c # cs));
          after_dot = rev (takeWhile (\<lambda>c. c \<noteq> CHR ''.'') (rev name));
          i = length name - length after_dot - 1
      in if CHR ''.'' \<in> set name \<and> 0 < i \<and> after_dot \<noteq> [] then drop i name else [])"

text \<open>
  A temporary directory \<open>/tmp\<close> on a file system whose file names hold at most 255
  bytes: \<open>mkstemp\<close> puts eight characters between the prefix and the suffix, and raises
  \<open>OSError\<close> when the name is too long.
\<close>

definition tmp_env :: temp_env where
  "tmp_env =
     \<lparr>path_suffix = pathlib_suffix,
      mkstemp = (\<lambda>prefix suffix.
        if length (prefix @ ''a1b2c3d4'' @ suffix) > 255
        then Inl ''[Errno 36] File name too long''
        else Inr (''/tmp/'' @ prefix @ ''a1b2c3d4'' @ suffix))\<rparr>"

text \<open>An upload whose file name has an extension of 300 characters.\<close>

definition long_extension :: string where
  "long_extension = CHR ''.'' # replicate 300 (CHR ''x'')"

definition long_name_state :: io_state where
  "long_name_state = \<lparr>files = (\<lambda>_. None),
     upload = \<lparr>payload = ''abc123'', offset = 0,
                filename = Some (CHR ''a'' # long_extension), closed = False\<rparr>,
     io_calls = []\<rparr>"

section \<open>Properties of the worker\<close>

subsection \<open>Effect of each collaborator on each component of the state\<close>

lemma log_call_fields [simp]:
  "calls (log_call c s) = calls s @ [c]"
  "store_record (log_call c s) = store_record s"
  "mark_failed_calls (log_call c s) = mark_failed_calls s"
  "pending_ids (log_call c s) = pending_ids s"
  "task_done_calls (log_call c s) = task_done_calls s"
  by (simp_all add: log_call_def)

lemma put_fields [simp]:
  "calls (put ev s) = calls s @ [Put ev]"
  "mark_failed_calls (put ev s) = mark_failed_calls s"
  "pending_ids (put ev s) = pending_ids s"
  "task_done_calls (put ev s) = task_done_calls s"
  "store_record (put ev s) =
     map_option (\<lambda>r. r\<lparr>progress_queue := map_option (\<lambda>q. q @ [ev]) (progress_queue r)\<rparr>)
       (store_record s)"
  by (simp_all add: put_def)

lemma done_event_set_fields [simp]:
  "calls (done_event_set s) = calls s @ [DoneEventSet]"
  "mark_failed_calls (done_event_set s) = mark_failed_calls s"
  "pending_ids (done_event_set s) = pending_ids s"
  "task_done_calls (done_event_set s) = task_done_calls s"
  "store_record (done_event_set s) =
     map_option (\<lambda>r. r\<lparr>done_event := map_option (\<lambda>_. True) (done_event r)\<rparr>) (store_record s)"
  by (simp_all add: done_event_set_def)

lemma mark_failed_fields [simp]:
  "calls (mark_failed j e s) = calls s @ [MarkFailed j e]"
  "mark_failed_calls (mark_failed j e s) = mark_failed_calls s @ [(j, e)]"
  "pending_ids (mark_failed j e s) = pending_ids s"
  "task_done_calls (mark_failed j e s) = task_done_calls s"
  "store_record (mark_failed j e s) =
     map_option (\<lambda>r. r\<lparr>status := ''failed'', error := Some e\<rparr>) (store_record s)"
  by (simp_all add: mark_failed_def)

lemma task_done_fields [simp]:
  "calls (task_done s) = calls s @ [TaskDone]"
  "mark_failed_calls (task_done s) = mark_failed_calls s"
  "pending_ids (task_done s) = pending_ids s"
  "task_done_calls (task_done s) = Suc (task_done_calls s)"
  "store_record (task_done s) = store_record s"
  by (simp_all add: task_done_def)

lemma cleanup_job_temp_files_fields [simp]:
  "calls (cleanup_job_temp_files j s) = calls s @ [CleanupJobTempFiles j]"
  "mark_failed_calls (cleanup_job_temp_files j s) = mark_failed_calls s"
  "pending_ids (cleanup_job_temp_files j s) = pending_ids s"
  "task_done_calls (cleanup_job_temp_files j s) = task_done_calls s"
  "store_record (cleanup_job_temp_files j s) = store_record s"
  by (simp_all add: cleanup_job_temp_files_def)

lemma store_get_fields [simp]:
  "calls (store_get j s) = calls s @ [StoreGet j]"
  "mark_failed_calls (store_get j s) = mark_failed_calls s"
  "pending_ids (store_get j s) = pending_ids s"
  "task_done_calls (store_get j s) = task_done_calls s"
  "store_record (store_get j s) = store_record s"
  by (simp_all add: store_get_def)

lemma pending_ids_remove_fields [simp]:
  "calls (pending_ids_remove j s) = calls s @ [PendingRemove j]"
  "mark_failed_calls (pending_ids_remove j s) = mark_failed_calls s"
  "pending_ids (pending_ids_remove j s) = remove1 j (pending_ids s)"
  "task_done_calls (pending_ids_remove j s) = task_done_calls s"
  "store_record (pending_ids_remove j s) = store_record s"
  by (auto simp: pending_ids_remove_def list_remove_def remove1_idem
           split: sum.splits value_error.splits)

lemma await_run_one_job_eq:
  "await_run_one_job run j req s =
     (fst (run j req (store_record s)),
      log_call (RunOneJob j)
        (s\<lparr>store_record := map_option (snd (run j req (store_record s))) (store_record s)\<rparr>))"
  by (simp add: await_run_one_job_def split: prod.splits)

lemma notify_returned_frame [simp]:
  "pending_ids (notify_returned s) = pending_ids s"
  "task_done_calls (notify_returned s) = task_done_calls s"
  "mark_failed_calls (notify_returned s) = mark_failed_calls s"
  by (simp_all add: notify_returned_def Let_def split: option.splits)

lemma notify_raised_frame [simp]:
  "pending_ids (notify_raised j m s) = pending_ids s"
  "task_done_calls (notify_raised j m s) = task_done_calls s"
  by (simp_all add: notify_raised_def Let_def)

lemma process_queue_item_pending_ids:
  "pending_ids (process_queue_item job_id req s run_one_job) = remove1 job_id (pending_ids s)"
  by (simp add: process_queue_item_def await_run_one_job_eq Let_def split: run_outcome.splits)

lemma puts_of_simps [simp]:
  "puts_of [] = []"
  "puts_of (Put ev # cs) = ev # puts_of cs"
  "puts_of (StoreGet j # cs) = puts_of cs"
  "puts_of (PendingRemove j # cs) = puts_of cs"
  "puts_of (RunOneJob j # cs) = puts_of cs"
  "puts_of (DoneEventSet # cs) = puts_of cs"
  "puts_of (MarkFailed j e # cs) = puts_of cs"
  "puts_of (CleanupJobTempFiles j # cs) = puts_of cs"
  "puts_of (TaskDone # cs) = puts_of cs"
  "puts_of (xs @ ys) = puts_of xs @ puts_of ys"
  by (simp_all add: puts_of_def)

subsection \<open>The \<open>done\<close> event and the completion signal\<close>

text \<open>
  Claim C1. Take a job whose record exists and has a progress channel when the
  notification code reads it, and let the execution routine either return or raise.
  Among the events \<open>process_queue_item\<close> puts on the channel, \<open>done\<close> occurs exactly once
  and is the last one; the channel holds what it held after the routine, followed by
  exactly these events. Where the record has a completion signal, it is set exactly
  once, no event is put after that call, and the signal ends up set; where it has none,
  nothing is set.
\<close>

theorem done_published_once_and_last:
  "store_record s = Some r0 \<Longrightarrow>
   run_one_job job_id req (Some r0) = (outcome, mutate) \<Longrightarrow>
   progress_queue (mutate r0) = Some q \<Longrightarrow>
   (let s' = process_queue_item job_id req s run_one_job;
        new = drop (length (calls s)) (calls s')
    in calls s' = calls s @ new
     \<and> count_list (puts_of new) EvDone = 1
     \<and> last (puts_of new) = EvDone
     \<and> map_option progress_queue (store_record s') = Some (Some (q @ puts_of new))
     \<and> (if done_event (mutate r0) = None then DoneEventSet \<notin> set new
        else count_call DoneEventSet new = 1
           \<and> puts_of (dropWhile (\<lambda>c. c \<noteq> DoneEventSet) new) = []
           \<and> map_option done_event (store_record s') = Some (Some True)))"
  unfolding process_queue_item_def notify_returned_def notify_raised_def Let_def
    await_run_one_job_eq rec_and_def count_call_def
  by (cases outcome) (auto split: option.splits)

text \<open>
  The theorem at job \<open>"j2"\<close> with a routine that records a success and returns: the
  channel receives the result and then \<open>done\<close>.
\<close>

theorem done_published_once_and_last_witness:
  "store_record j2_state = Some j2_record
   \<and> run_ok ''j2'' () (Some j2_record) = (Returned, succeed)
   \<and> progress_queue (succeed j2_record) = Some []
   \<and> puts_of (calls (process_queue_item ''j2'' () j2_state run_ok))
       = [EvResult [(''audio'', ''out.wav'')], EvDone]
   \<and> count_list (puts_of (calls (process_queue_item ''j2'' () j2_state run_ok))) EvDone = 1
   \<and> map_option progress_queue (store_record (process_queue_item ''j2'' () j2_state run_ok))
       = Some (Some [EvResult [(''audio'', ''out.wav'')], EvDone])
   \<and> map_option done_event (store_record (process_queue_item ''j2'' () j2_state run_ok))
       = Some (Some True)"
proof -
  have h1: "store_record j2_state = Some j2_record"
    by (simp add: j2_state_def)
  have h2: "run_ok ''j2'' () (Some j2_record) = (Returned, succeed)"
    by (simp add: run_ok_def)
  have h3: "progress_queue (succeed j2_record) = Some []"
    by (simp add: succeed_def j2_record_def)
  have c: "calls j2_state = []" and d: "done_event (succeed j2_record) \<noteq> None"
    by (simp_all add: j2_state_def succeed_def j2_record_def)
  have p: "puts_of (calls (process_queue_item ''j2'' () j2_state run_ok))
             = [EvResult [(''audio'', ''out.wav'')], EvDone]"
    by (simp add: process_queue_item_def notify_returned_def await_run_one_job_eq Let_def
          rec_and_def run_ok_def succeed_def j2_state_def j2_record_def)
  from done_published_once_and_last
         [of j2_state j2_record run_ok "''j2''" "()" Returned succeed "[]"]
       h1 h2 h3 c d p
  show ?thesis
    by (simp add: Let_def)
qed

subsection \<open>A raised failure\<close>

text \<open>
  Claim C2. Let the record exist, let the execution routine raise an exception with
  message \<open>msg\<close>, and let the status of the record be neither \<open>succeeded\<close> nor \<open>failed\<close>
  when the handler reads it. Then \<open>process_queue_item\<close> calls \<open>mark_failed(job_id, msg)\<close>,
  then puts an \<open>error\<close> event carrying \<open>msg\<close> and a \<open>done\<close> event on the progress channel
  (if there is one), then sets the completion signal (if there is one), then cleans the
  temporary files and acknowledges the queue slot, and makes no other call after the
  routine. The record ends up \<open>failed\<close> with error \<open>msg\<close>.
\<close>

theorem raised_failure_is_recorded_and_notified:
  "store_record s = Some r0 \<Longrightarrow>
   run_one_job job_id req (Some r0) = (Raised msg, mutate) \<Longrightarrow>
   status (mutate r0) \<noteq> ''succeeded'' \<Longrightarrow>
   status (mutate r0) \<noteq> ''failed'' \<Longrightarrow>
   (let s' = process_queue_item job_id req s run_one_job
    in calls s' = calls s @
         [StoreGet job_id, PendingRemove job_id, RunOneJob job_id, MarkFailed job_id msg] @
         (if progress_queue (mutate r0) = None then [] else [Put (EvError msg), Put EvDone]) @
         (if done_event (mutate r0) = None then [] else [DoneEventSet]) @
         [CleanupJobTempFiles job_id, TaskDone]
     \<and> store_record s' =
         Some ((mutate r0)\<lparr>status := ''failed'', error := Some msg,
                 progress_queue :=
                   map_option (\<lambda>q. q @ [EvError msg, EvDone]) (progress_queue (mutate r0)),
                 done_event := map_option (\<lambda>_. True) (done_event (mutate r0))\<rparr>)
     \<and> mark_failed_calls s' = mark_failed_calls s @ [(job_id, msg)]
     \<and> task_done_calls s' = Suc (task_done_calls s))"
  unfolding process_queue_item_def notify_raised_def Let_def await_run_one_job_eq rec_and_def
  by (auto split: option.splits)

text \<open>The scenario of job \<open>"j2"\<close> with \<open>RuntimeError("boom")\<close>, in full.\<close>

theorem raised_failure_j2_witness:
  "process_queue_item ''j2'' () j2_state raise_boom =
     \<lparr>store_record = Some \<lparr>status = ''failed'', result = None, error = Some ''boom'',
                            progress_queue = Some [EvError ''boom'', EvDone],
                            done_event = Some True\<rparr>,
      mark_failed_calls = [(''j2'', ''boom'')],
      pending_ids = [],
      task_done_calls = 1,
      calls = [StoreGet ''j2'', PendingRemove ''j2'', RunOneJob ''j2'',
               MarkFailed ''j2'' ''boom'', Put (EvError ''boom''), Put EvDone, DoneEventSet,
               CleanupJobTempFiles ''j2'', TaskDone]\<rparr>"
proof -
  have h1: "store_record j2_state = Some j2_record"
    by (simp add: j2_state_def)
  have h2: "raise_boom ''j2'' () (Some j2_record) = (Raised ''boom'', (\<lambda>r. r))"
    by (simp add: raise_boom_def)
  have h3: "status j2_record \<noteq> ''succeeded''" and h4: "status j2_record \<noteq> ''failed''"
    by (simp_all add: j2_record_def)
  have p: "pending_ids (process_queue_item ''j2'' () j2_state raise_boom) = []"
    by (simp add: process_queue_item_pending_ids j2_state_def)
  from raised_failure_is_recorded_and_notified
         [of j2_state j2_record raise_boom "''j2''" "()" "''boom''" "\<lambda>r. r"]
       h1 h2 h3 h4 p
  show ?thesis
    by (simp add: j2_state_def j2_record_def Let_def)
qed

subsection \<open>A terminal status is kept\<close>

text \<open>
  Claim C3. Let the record exist and let its status be \<open>succeeded\<close> or \<open>failed\<close> when the
  execution routine raises. Then \<open>process_queue_item\<close> makes no call of \<open>mark_failed\<close>,
  and the status, the error and the result of the record are what the routine left.
\<close>

theorem terminal_status_not_overwritten:
  "store_record s = Some r0 \<Longrightarrow>
   run_one_job job_id req (Some r0) = (Raised msg, mutate) \<Longrightarrow>
   status (mutate r0) = ''succeeded'' \<or> status (mutate r0) = ''failed'' \<Longrightarrow>
   (let s' = process_queue_item job_id req s run_one_job
    in filter is_mark_failed (drop (length (calls s)) (calls s')) = []
     \<and> mark_failed_calls s' = mark_failed_calls s
     \<and> map_option status (store_record s') = Some (status (mutate r0))
     \<and> map_option error (store_record s') = Some (error (mutate r0))
     \<and> map_option result (store_record s') = Some (result (mutate r0)))"
  unfolding process_queue_item_def notify_raised_def Let_def await_run_one_job_eq rec_and_def
  by (auto simp: is_mark_failed_def split: option.splits)

text \<open>The theorem at a routine that records a success and then raises.\<close>

theorem terminal_status_not_overwritten_witness:
  "store_record j2_state = Some j2_record
   \<and> succeed_then_raise ''j3'' () (Some j2_record) = (Raised ''late'', succeed)
   \<and> status (succeed j2_record) = ''succeeded''
   \<and> mark_failed_calls (process_queue_item ''j3'' () j2_state succeed_then_raise) = []
   \<and> map_option status (store_record (process_queue_item ''j3'' () j2_state succeed_then_raise))
       = Some ''succeeded''
   \<and> map_option error (store_record (process_queue_item ''j3'' () j2_state succeed_then_raise))
       = Some None"
proof -
  have h1: "store_record j2_state = Some j2_record"
    by (simp add: j2_state_def)
  have h2: "succeed_then_raise ''j3'' () (Some j2_record) = (Raised ''late'', succeed)"
    by (simp add: succeed_then_raise_def)
  have h3: "status (succeed j2_record) = ''succeeded''"
    by (simp add: succeed_def)
  have m: "mark_failed_calls j2_state = []" and e: "error (succeed j2_record) = None"
    by (simp_all add: j2_state_def succeed_def j2_record_def)
  from terminal_status_not_overwritten
         [of j2_state j2_record succeed_then_raise "''j3''" "()" "''late''" succeed]
       h1 h2 h3 m e
  show ?thesis
    by (simp add: Let_def)
qed

subsection \<open>Cleanup and acknowledgement\<close>

text \<open>
  Claim C4. Whatever the record (present or missing) and whatever the execution
  routine does (return or raise), \<open>process_queue_item\<close> calls
  \<open>cleanup_job_temp_files(job_id)\<close> exactly once and \<open>task_done()\<close> exactly once, the
  cleanup first; these are its last two calls, and the counter of the queue grows by
  one.
\<close>

theorem cleanup_then_task_done_exactly_once:
  "(let s' = process_queue_item job_id req s run_one_job;
        new = drop (length (calls s)) (calls s')
    in calls s' = calls s @ new
     \<and> filter (\<lambda>c. is_cleanup c \<or> c = TaskDone) new = [CleanupJobTempFiles job_id, TaskDone]
     \<and> drop (length new - 2) new = [CleanupJobTempFiles job_id, TaskDone]
     \<and> task_done_calls s' = Suc (task_done_calls s))"
  unfolding process_queue_item_def notify_returned_def notify_raised_def Let_def
    await_run_one_job_eq rec_and_def
  by (cases "fst (run_one_job job_id req (store_record s))")
     (auto simp: is_cleanup_def split: option.splits)

text \<open>The theorem at job \<open>"j1"\<close>, which has nothing to notify.\<close>

theorem cleanup_then_task_done_witness:
  "calls (process_queue_item ''j1'' () j1_state run_ok)
     = [StoreGet ''j1'', PendingRemove ''j1'', RunOneJob ''j1'',
        CleanupJobTempFiles ''j1'', TaskDone]
   \<and> task_done_calls (process_queue_item ''j1'' () j1_state run_ok) = 1"
proof -
  have c: "calls (process_queue_item ''j1'' () j1_state run_ok)
     = [StoreGet ''j1'', PendingRemove ''j1'', RunOneJob ''j1'',
        CleanupJobTempFiles ''j1'', TaskDone]"
    by (simp add: process_queue_item_def notify_returned_def await_run_one_job_eq Let_def
          rec_and_def run_ok_def succeed_def j1_state_def j1_record_def)
  have t: "task_done_calls j1_state = 0"
    by (simp add: j1_state_def)
  from cleanup_then_task_done_exactly_once [of "''j1''" "()" j1_state run_ok] c t
  show ?thesis
    by (simp add: Let_def)
qed

subsection \<open>Removal from the pending ids\<close>

lemma pending_ids_remove_absent:
  "job_id \<notin> set (pending_ids s) \<Longrightarrow>
   pending_ids_remove job_id (store_get job_id (s\<lparr>pending_ids := job_id # pending_ids s\<rparr>)) =
   pending_ids_remove job_id (store_get job_id s)"
  by (simp add: pending_ids_remove_def list_remove_def store_get_def log_call_def)

text \<open>
  Claim C5. When the job id is not among the pending ids, \<open>remove\<close> raises
  \<open>ValueError\<close>, which \<open>process_queue_item\<close> passes over: the pending ids are unchanged,
  the execution routine is still invoked, the whole final state is the one reached from
  the state in which the id was pending, and \<open>mark_failed\<close> is not called when the
  routine returns.
\<close>

theorem absent_pending_id_is_passed_over:
  "job_id \<notin> set (pending_ids s) \<Longrightarrow>
   (let s' = process_queue_item job_id req s run_one_job
    in list_remove job_id (pending_ids s) = Inl ValueError
     \<and> pending_ids s' = pending_ids s
     \<and> process_queue_item job_id req (s\<lparr>pending_ids := job_id # pending_ids s\<rparr>) run_one_job = s'
     \<and> RunOneJob job_id \<in> set (calls s')
     \<and> (if fst (run_one_job job_id req (store_record s)) = Returned
        then mark_failed_calls s' = mark_failed_calls s
        else True))"
proof -
  assume a: "job_id \<notin> set (pending_ids s)"
  have e: "process_queue_item job_id req (s\<lparr>pending_ids := job_id # pending_ids s\<rparr>) run_one_job
           = process_queue_item job_id req s run_one_job"
    unfolding process_queue_item_def Let_def pending_ids_remove_absent [OF a] ..
  have r: "RunOneJob job_id \<in> set (calls (process_queue_item job_id req s run_one_job))"
    unfolding process_queue_item_def notify_returned_def notify_raised_def Let_def
      await_run_one_job_eq rec_and_def
    by (cases "fst (run_one_job job_id req (store_record s))") (auto split: option.splits)
  have m: "fst (run_one_job job_id req (store_record s)) = Returned \<Longrightarrow>
           mark_failed_calls (process_queue_item job_id req s run_one_job) = mark_failed_calls s"
    by (simp add: process_queue_item_def await_run_one_job_eq Let_def)
  show ?thesis
    using a e r m
    by (simp add: Let_def list_remove_def process_queue_item_pending_ids remove1_idem)
qed

text \<open>The theorem at job \<open>"j1"\<close>, whose id is not pending.\<close>

theorem absent_pending_id_witness:
  "''j1'' \<notin> set (pending_ids j1_state)
   \<and> pending_ids (process_queue_item ''j1'' () j1_state run_ok) = []
   \<and> mark_failed_calls (process_queue_item ''j1'' () j1_state run_ok) = []
   \<and> RunOneJob ''j1'' \<in> set (calls (process_queue_item ''j1'' () j1_state run_ok))"
proof -
  have h: "''j1'' \<notin> set (pending_ids j1_state)"
    by (simp add: j1_state_def)
  have p: "pending_ids j1_state = []" and m: "mark_failed_calls j1_state = []"
    and r: "fst (run_ok ''j1'' () (store_record j1_state)) = Returned"
    by (simp_all add: j1_state_def run_ok_def)
  from absent_pending_id_is_passed_over [OF h, of "()" run_ok] h p m r show ?thesis
    by (simp add: Let_def)
qed

subsection \<open>A missing record\<close>

text \<open>
  Claim C6. When the store has no record for the job, \<open>process_queue_item\<close> runs to
  its end whether the execution routine returns or raises: its calls are the lookup,
  the removal of the pending id, the routine, the cleanup of the temporary files and
  the acknowledgement of the queue slot, and nothing else, so no event is put, no
  completion signal is set and \<open>mark_failed\<close> is not called.
\<close>

theorem missing_record_is_tolerated:
  "store_record s = None \<Longrightarrow>
   (let s' = process_queue_item job_id req s run_one_job
    in calls s' = calls s @ [StoreGet job_id, PendingRemove job_id, RunOneJob job_id,
                             CleanupJobTempFiles job_id, TaskDone]
     \<and> store_record s' = None
     \<and> mark_failed_calls s' = mark_failed_calls s
     \<and> task_done_calls s' = Suc (task_done_calls s))"
  unfolding process_queue_item_def notify_returned_def notify_raised_def Let_def
    await_run_one_job_eq rec_and_def
  by (cases "fst (run_one_job job_id req (store_record s))") auto

text \<open>The theorem at the unknown job \<open>"j4"\<close> with a routine that raises.\<close>

theorem missing_record_witness:
  "store_record j4_state = None
   \<and> process_queue_item ''j4'' () j4_state raise_boom =
       \<lparr>store_record = None, mark_failed_calls = [], pending_ids = [], task_done_calls = 1,
        calls = [StoreGet ''j4'', PendingRemove ''j4'', RunOneJob ''j4'',
                 CleanupJobTempFiles ''j4'', TaskDone]\<rparr>"
proof -
  have h: "store_record j4_state = None"
    by (simp add: j4_state_def)
  have p: "pending_ids (process_queue_item ''j4'' () j4_state raise_boom) = []"
    by (simp add: process_queue_item_pending_ids j4_state_def)
  from missing_record_is_tolerated [OF h, of "''j4''" "()" raise_boom] h p show ?thesis
    by (simp add: j4_state_def Let_def)
qed

section \<open>Properties of the store cleanup loop\<close>

lemma cleanup_old_jobs_not_cancelled: "fst (cleanup_old_jobs st) \<noteq> Raises CancelledError"
  by (simp add: cleanup_old_jobs_def Let_def split: cleanup_return.splits)

lemma observers_append [simp]:
  "stats_logged (xs @ ys) = stats_logged xs @ stats_logged ys"
  "positive_sweeps (xs @ ys) = positive_sweeps xs @ positive_sweeps ys"
  "count_get_stats (xs @ ys) = count_get_stats xs + count_get_stats ys"
  "sleeps_of (xs @ ys) = sleeps_of xs @ sleeps_of ys"
  "errors_logged (xs @ ys) = errors_logged xs @ errors_logged ys"
  "failures_raised (xs @ ys) = failures_raised xs @ failures_raised ys"
  by (simp_all add: stats_logged_def positive_sweeps_def count_get_stats_def sleeps_of_def
        errors_logged_def failures_raised_def)

lemma iteration_calls:
  "\<exists>new. loop_calls (snd (iteration i slept s)) = loop_calls s @ new \<and> tick_ok i slept new"
proof -
  obtain r st' where c: "cleanup_old_jobs (store s) = (r, st')"
    by (cases "cleanup_old_jobs (store s)")
  show ?thesis
    using c
    by (cases slept; cases r)
       (auto simp: iteration_def try_body_def Let_def logged_def tick_ok_def stats_logged_def
          positive_sweeps_def count_get_stats_def sleeps_of_def errors_logged_def
          failures_raised_def split: exc.splits)
qed

lemma iteration_break:
  "fst (iteration i slept s) = Break \<longleftrightarrow> slept = Raises CancelledError"
  using cleanup_old_jobs_not_cancelled [of "store (logged (Sleep i slept) s)"]
  by (auto simp: iteration_def try_body_def Let_def split: outcome.splits exc.splits prod.splits)

lemma until_cancelled_Cons:
  "until_cancelled (r # rs) = (if r = Raises CancelledError then [r] else r # until_cancelled rs)"
  by (simp add: until_cancelled_def)

lemma loop_calls_run:
  "\<exists>new. loop_calls (snd (run_job_store_cleanup_loop i script s)) = loop_calls s @ new
     \<and> sleeps_of new = map (Pair i) (until_cancelled script)
     \<and> stats_logged new = positive_sweeps new
     \<and> count_get_stats new = length (positive_sweeps new)
     \<and> errors_logged new = failures_raised new"
proof (induction script arbitrary: s)
  case Nil
  show ?case
    by (simp add: until_cancelled_def sleeps_of_def stats_logged_def positive_sweeps_def
          count_get_stats_def errors_logged_def failures_raised_def)
next
  case (Cons slept rest)
  obtain c s1 where it: "iteration i slept s = (c, s1)"
    by (cases "iteration i slept s")
  from iteration_calls [of i slept s] it obtain new1 where
    n1: "loop_calls s1 = loop_calls s @ new1" and t1: "tick_ok i slept new1"
    by auto
  from iteration_break [of i slept s] it have b: "c = Break \<longleftrightarrow> slept = Raises CancelledError"
    by simp
  show ?case
  proof (cases c)
    case Break
    with it n1 t1 b show ?thesis
      by (simp add: tick_ok_def until_cancelled_Cons)
  next
    case Continue
    from Cons.IH [of s1] obtain new2 where
      n2: "loop_calls (snd (run_job_store_cleanup_loop i rest s1)) = loop_calls s1 @ new2"
      and t2: "sleeps_of new2 = map (Pair i) (until_cancelled rest)"
        "stats_logged new2 = positive_sweeps new2"
        "count_get_stats new2 = length (positive_sweeps new2)"
        "errors_logged new2 = failures_raised new2"
      by blast
    from Continue b have nb: "slept \<noteq> Raises CancelledError"
      by simp
    have "loop_calls (snd (run_job_store_cleanup_loop i (slept # rest) s))
            = loop_calls s @ (new1 @ new2)"
      using it Continue n1 n2 by simp
    moreover have "sleeps_of (new1 @ new2) = map (Pair i) (until_cancelled (slept # rest))"
      using t1 t2 nb by (simp add: tick_ok_def until_cancelled_Cons)
    moreover have "stats_logged (new1 @ new2) = positive_sweeps (new1 @ new2)"
      "count_get_stats (new1 @ new2) = length (positive_sweeps (new1 @ new2))"
      "errors_logged (new1 @ new2) = failures_raised (new1 @ new2)"
      using t1 t2 by (simp_all add: tick_ok_def)
    ultimately show ?thesis
      by blast
  qed
qed

lemma loop_exits_iff:
  "fst (run_job_store_cleanup_loop i script s) = Exited \<longleftrightarrow> Raises CancelledError \<in> set script"
proof (induction script arbitrary: s)
  case Nil
  show ?case by simp
next
  case (Cons slept rest)
  show ?case
    using iteration_break [of i slept s] Cons.IH
    by (cases "iteration i slept s"; cases "fst (iteration i slept s)") (auto split: control.splits)
qed

text \<open>
  Claim C7. Run against any sequence of outcomes of \<open>sleep_fn\<close> and any store, the loop
  has exited exactly when one of the sleeps raised \<open>CancelledError\<close>; it has slept once
  for every outcome up to and including the first cancellation, so no failure raised
  in an iteration ends it. The counts it logs with the statistics are, in order, the
  positive counts \<open>cleanup_old_jobs\<close> returned, \<open>get_stats\<close> is called once for each of
  them and at no other time, and the error messages it logs are, in order, the failures
  raised by \<open>sleep_fn\<close> and \<open>cleanup_old_jobs\<close>.
\<close>

theorem cleanup_loop_runs_until_cancelled:
  "(let r = run_job_store_cleanup_loop i script s;
        new = drop (length (loop_calls s)) (loop_calls (snd r))
    in (fst r = Exited \<longleftrightarrow> Raises CancelledError \<in> set script)
     \<and> loop_calls (snd r) = loop_calls s @ new
     \<and> sleeps_of new = map (Pair i) (until_cancelled script)
     \<and> stats_logged new = positive_sweeps new
     \<and> count_get_stats new = length (positive_sweeps new)
     \<and> errors_logged new = failures_raised new)"
  using loop_calls_run [of i script s] loop_exits_iff [of i script s]
  by (auto simp: Let_def)

text \<open>
  The scenario \<open>[0, 3, RuntimeError]\<close>: after three ticks the loop is still running,
  it has logged the statistics once, on the tick that removed three jobs, and the error
  once; a fourth tick leaves it running, a cancellation ends it.
\<close>

theorem cleanup_loop_scenario_witness:
  "run_job_store_cleanup_loop 5 three_ticks scenario_state =
     (Suspended,
      \<lparr>store = scenario_store\<lparr>cleanup_call_count := 3\<rparr>,
       loop_calls =
         [Sleep 5 (Returns ()), CleanupOldJobs (Returns 0),
          Sleep 5 (Returns ()), CleanupOldJobs (Returns 3), GetStats,
          Log (CleanedUp 3 [(''total'', 0)]),
          Sleep 5 (Returns ()), CleanupOldJobs (Raises (Exception ''boom'')),
          Log (CleanupError ''boom'')]\<rparr>)
   \<and> count_get_stats (loop_calls (snd (run_job_store_cleanup_loop 5 three_ticks scenario_state))) = 1
   \<and> fst (run_job_store_cleanup_loop 5 (three_ticks @ [Returns ()]) scenario_state) = Suspended
   \<and> fst (run_job_store_cleanup_loop 5 (three_ticks @ [Raises CancelledError]) scenario_state) = Exited"
proof -
  have e: "run_job_store_cleanup_loop 5 three_ticks scenario_state =
     (Suspended,
      \<lparr>store = scenario_store\<lparr>cleanup_call_count := 3\<rparr>,
       loop_calls =
         [Sleep 5 (Returns ()), CleanupOldJobs (Returns 0),
          Sleep 5 (Returns ()), CleanupOldJobs (Returns 3), GetStats,
          Log (CleanedUp 3 [(''total'', 0)]),
          Sleep 5 (Returns ()), CleanupOldJobs (Raises (Exception ''boom'')),
          Log (CleanupError ''boom'')]\<rparr>)"
    by (simp add: three_ticks_def scenario_state_def scenario_store_def iteration_def
          try_body_def cleanup_old_jobs_def get_stats_def logged_def Let_def)
  have g: "count_get_stats (loop_calls (snd (run_job_store_cleanup_loop 5 three_ticks scenario_state))) = 1"
    by (simp add: e count_get_stats_def)
  have n: "Raises CancelledError \<notin> set (three_ticks @ [Returns ()])"
    and y: "Raises CancelledError \<in> set (three_ticks @ [Raises CancelledError])"
    by (simp_all add: three_ticks_def)
  from cleanup_loop_runs_until_cancelled [of 5 "three_ticks @ [Returns ()]" scenario_state] n
  have a: "fst (run_job_store_cleanup_loop 5 (three_ticks @ [Returns ()]) scenario_state) = Suspended"
    by (cases "fst (run_job_store_cleanup_loop 5 (three_ticks @ [Returns ()]) scenario_state)")
       (simp_all add: Let_def)
  from cleanup_loop_runs_until_cancelled [of 5 "three_ticks @ [Raises CancelledError]" scenario_state] y
  have b: "fst (run_job_store_cleanup_loop 5 (three_ticks @ [Raises CancelledError]) scenario_state) = Exited"
    by (simp add: Let_def)
  from e g a b show ?thesis
    by simp
qed

section \<open>Properties of the path validation\<close>

subsection \<open>Splitting and joining\<close>

lemma split_sep_nonempty: "split_sep p \<noteq> []"
  by (induction p) (auto split: list.splits)

lemma split_sep_no_sep: "sep \<notin> set w \<Longrightarrow> split_sep w = [w]"
  by (induction w) auto

lemma split_sep_append: "sep \<notin> set w \<Longrightarrow> split_sep (w @ sep # rest) = w # split_sep rest"
  by (induction w) auto

lemma split_sep_parts_sep_free: "w \<in> set (split_sep p) \<Longrightarrow> sep \<notin> set w"
proof (induction p arbitrary: w)
  case Nil
  then show ?case by simp
next
  case (Cons c cs)
  obtain v vs where s: "split_sep cs = v # vs"
    using split_sep_nonempty [of cs] by (cases "split_sep cs") auto
  show ?case
  proof (cases "c = sep")
    case True
    with Cons show ?thesis by auto
  next
    case False
    with Cons.prems s have "w = c # v \<or> w \<in> set vs"
      by simp
    with Cons.IH [of v] Cons.IH [of w] s False show ?thesis
      by auto
  qed
qed

lemma components_clean: "clean_parts (components p)"
  by (auto simp: clean_parts_def components_def dest: split_sep_parts_sep_free)

lemma split_join: "clean_parts ws \<Longrightarrow> ws \<noteq> [] \<Longrightarrow> split_sep (join_sep ws) = ws"
proof (induction ws rule: join_sep.induct)
  case 1
  then show ?case by simp
next
  case (2 w)
  then show ?case by (simp add: clean_parts_def split_sep_no_sep)
next
  case (3 w v vs)
  then show ?case by (simp add: clean_parts_def split_sep_append)
qed

lemma join_sep_empty: "clean_parts ws \<Longrightarrow> join_sep ws = [] \<Longrightarrow> ws = []"
  by (cases ws rule: join_sep.cases) (auto simp: clean_parts_def)

lemma join_sep_inj:
  "clean_parts xs \<Longrightarrow> clean_parts ys \<Longrightarrow> join_sep xs = join_sep ys \<Longrightarrow> xs = ys"
proof (cases "xs = [] \<or> ys = []")
  case True
  assume "clean_parts xs" "clean_parts ys" "join_sep xs = join_sep ys"
  with True join_sep_empty [of xs] join_sep_empty [of ys] show ?thesis
    by auto
next
  case False
  assume c: "clean_parts xs" "clean_parts ys" and e: "join_sep xs = join_sep ys"
  from False c have x: "split_sep (join_sep xs) = xs" and y: "split_sep (join_sep ys) = ys"
    by (simp_all add: split_join)
  have "xs = split_sep (join_sep xs)"
    by (rule x [symmetric])
  also have "\<dots> = split_sep (join_sep ys)"
    by (simp only: e)
  also have "\<dots> = ys"
    by (rule y)
  finally show ?thesis .
qed

lemma common_prefix_subset: "set (common_prefix xs ys) \<subseteq> set xs"
  by (induction xs ys rule: common_prefix.induct) auto

lemma common_prefix_whole: "common_prefix xs ys = xs \<longleftrightarrow> take (length xs) ys = xs"
  by (induction xs ys rule: common_prefix.induct) auto

lemma is_in_temp_iff_inside:
  assumes "isabs t" "isabs r" "t = sep # join_sep (components t)"
  shows "is_in_temp t r \<longleftrightarrow> inside_directory t r"
proof -
  define ct where "ct = components t"
  define cr where "cr = components r"
  from assms(3) have canon: "t = sep # join_sep ct"
    by (simp add: ct_def)
  from assms(1,2) have a: "take 1 t = [sep]" "take 1 r = [sep]"
    by (simp_all add: isabs_def startswith_def)
  have cl: "clean_parts ct" "clean_parts (common_prefix ct cr)"
    using components_clean [of t] common_prefix_subset [of ct cr]
    by (auto simp: ct_def clean_parts_def)
  have "is_in_temp t r \<longleftrightarrow> sep # join_sep (common_prefix ct cr) = t"
    using a by (simp add: is_in_temp_def commonpath2_def Let_def ct_def cr_def)
  also have "\<dots> \<longleftrightarrow> sep # join_sep (common_prefix ct cr) = sep # join_sep ct"
    by (subst canon) (rule refl)
  also have "\<dots> \<longleftrightarrow> common_prefix ct cr = ct"
    using join_sep_inj [OF cl(2) cl(1)] by auto
  also have "\<dots> \<longleftrightarrow> inside_directory t r"
    by (simp add: common_prefix_whole inside_directory_def ct_def cr_def)
  finally show ?thesis .
qed

lemma same_directory_name:
  assumes "path \<noteq> []" "sep \<notin> set path" "path \<noteq> ''..''"
  shows "\<not> isabs path \<and> normpath path = path \<and> ''..'' \<notin> set (split_sep (normpath path))"
proof -
  from assms(1,2) have s: "\<not> startswith path [sep]"
    by (cases path) (auto simp: startswith_def)
  have sp: "split_sep path = [path]"
    using assms(2) by (rule split_sep_no_sep)
  have n: "normpath path = path"
    using assms s sp by (auto simp: normpath_def normpath_step_def Let_def)
  from s n sp assms(3) show ?thesis
    by (simp add: isabs_def)
qed


lemma abspath_of_absolute: "isabs path \<Longrightarrow> abspath cwd path = normpath path"
  by (simp add: abspath_def)

lemma validate_resolved:
  "path \<noteq> [] \<Longrightarrow> realpath env (gettempdir env) = Inr t \<Longrightarrow> realpath env path = Inr r \<Longrightarrow>
   validate_audio_path env (Some path) =
     (if is_in_temp t r then Inr (Some r)
      else if isabs path then
        Inl (HTTPException 400 ''absolute audio file paths are not allowed'')
      else if ''..'' \<in> set (split_sep (normpath path)) then
        Inl (HTTPException 400 ''path traversal in audio file paths is not allowed'')
      else Inr (Some path))"
  by (simp add: validate_audio_path_def)

lemma posix_env_example:
  "validate_audio_path (posix_env cwd ''/tmp'') (Some ''/tmp/foo/x.wav'')
     = Inr (Some ''/tmp/foo/x.wav'')"
proof -
  have i1: "isabs ''/tmp/foo/x.wav''" and i2: "isabs ''/tmp''"
    by code_simp+
  have m1: "normpath ''/tmp/foo/x.wav'' = ''/tmp/foo/x.wav''"
    and m2: "normpath ''/tmp'' = ''/tmp''"
    by code_simp+
  have z1: "CHR 0x00 \<notin> set ''/tmp/foo/x.wav''" and z2: "CHR 0x00 \<notin> set ''/tmp''"
    by code_simp+
  have c: "is_in_temp ''/tmp'' ''/tmp/foo/x.wav''"
    by code_simp
  have r1: "realpath (posix_env cwd ''/tmp'') (gettempdir (posix_env cwd ''/tmp'')) = Inr ''/tmp''"
    using z2 by (simp add: posix_env_def abspath_of_absolute i2 m2)
  have r2: "realpath (posix_env cwd ''/tmp'') ''/tmp/foo/x.wav'' = Inr ''/tmp/foo/x.wav''"
    using z1 by (simp add: posix_env_def abspath_of_absolute i1 m1)
  have ne: "''/tmp/foo/x.wav'' \<noteq> []"
    by simp
  show ?thesis
    unfolding validate_resolved [OF ne r1 r2] using c by simp
qed

subsection \<open>What is accepted and what is rejected\<close>

text \<open>
  Claim C8, as stated, fails. With the working directory outside the temporary
  directory, the relative path \<open>a/../x.wav\<close> has a parent-directory segment and is
  accepted unchanged, because the check is made on the normalised path. With the working
  directory under the temporary directory, \<open>../x.wav\<close> is accepted and \<open>clip.wav\<close> is
  not returned unchanged: both resolve into the temporary directory and come back as
  their real paths, as does an absolute path inside it that is not already normalised.
\<close>

theorem traversal_segment_is_accepted_counterexample:
  "\<not> isabs ''a/../x.wav''
   \<and> ''..'' \<in> set (split_sep ''a/../x.wav'')
   \<and> validate_audio_path app_env (Some ''a/../x.wav'') = Inr (Some ''a/../x.wav'')
   \<and> validate_audio_path work_env (Some ''../x.wav'') = Inr (Some ''/tmp/x.wav'')
   \<and> validate_audio_path work_env (Some ''clip.wav'') = Inr (Some ''/tmp/work/clip.wav'')
   \<and> validate_audio_path app_env (Some ''/tmp/foo/../x.wav'') = Inr (Some ''/tmp/x.wav'')"
  by code_simp

text \<open>
  Claim C8, amended. Take a non-empty path for which \<open>realpath\<close> returns, \<open>realpath\<close>
  giving absolute paths and the temporary directory as a separator followed by its
  components. If the real path is inside the real temporary directory, the path is
  accepted and its real path is returned. Otherwise an absolute path is rejected with
  status 400, a relative path whose normalised form has a \<open>..\<close> component is rejected
  with status 400, and every other relative path is accepted unchanged. A file name
  without a separator, other than \<open>..\<close>, is such a relative path (\<open>clip.wav\<close> is one),
  and \<open>../x.wav\<close> is a relative path whose normalised form has a \<open>..\<close> component.
  Without symbolic links and with \<open>/tmp\<close> as the temporary directory,
  \<open>/tmp/foo/x.wav\<close> is accepted and returned as it is.
\<close>

theorem validate_audio_path_accepts_and_rejects:
  "(path \<noteq> [] \<and> realpath env (gettempdir env) = Inr t \<and> realpath env path = Inr r
      \<and> isabs t \<and> isabs r \<and> t = sep # join_sep (components t) \<longrightarrow>
      validate_audio_path env (Some path) =
        (if inside_directory t r then Inr (Some r)
         else if isabs path then
           Inl (HTTPException 400 ''absolute audio file paths are not allowed'')
         else if ''..'' \<in> set (split_sep (normpath path)) then
           Inl (HTTPException 400 ''path traversal in audio file paths is not allowed'')
         else Inr (Some path)))
   \<and> (name \<noteq> [] \<and> sep \<notin> set name \<and> name \<noteq> ''..'' \<longrightarrow>
        \<not> isabs name \<and> ''..'' \<notin> set (split_sep (normpath name)))
   \<and> \<not> isabs ''../x.wav'' \<and> ''..'' \<in> set (split_sep (normpath ''../x.wav''))
   \<and> validate_audio_path (posix_env cwd ''/tmp'') (Some ''/tmp/foo/x.wav'')
       = Inr (Some ''/tmp/foo/x.wav'')"
proof -
  have p1: "validate_audio_path env (Some path) =
        (if inside_directory t r then Inr (Some r)
         else if isabs path then
           Inl (HTTPException 400 ''absolute audio file paths are not allowed'')
         else if ''..'' \<in> set (split_sep (normpath path)) then
           Inl (HTTPException 400 ''path traversal in audio file paths is not allowed'')
         else Inr (Some path))"
    if "path \<noteq> []" "realpath env (gettempdir env) = Inr t" "realpath env path = Inr r"
      "isabs t" "isabs r" "t = sep # join_sep (components t)"
    unfolding validate_resolved [OF that(1-3)] is_in_temp_iff_inside [OF that(4-6)] ..
  have p2: "\<not> isabs name \<and> ''..'' \<notin> set (split_sep (normpath name))"
    if "name \<noteq> []" "sep \<notin> set name" "name \<noteq> ''..''"
    using same_directory_name [OF that] by blast
  have p3: "\<not> isabs ''../x.wav''" and p4: "''..'' \<in> set (split_sep (normpath ''../x.wav''))"
    by code_simp+
  from p1 p2 p3 p4 posix_env_example [of cwd] show ?thesis
    by blast
qed

text \<open>
  The theorem for an application started from \<open>/home/user/app\<close>, at two file names, a
  path that climbs out of the working directory, an absolute path outside the temporary
  directory and one inside it.
\<close>

theorem validate_audio_path_witness:
  "validate_audio_path app_env (Some ''clip.wav'') = Inr (Some ''clip.wav'')
   \<and> validate_audio_path app_env (Some ''song.wav'') = Inr (Some ''song.wav'')
   \<and> validate_audio_path app_env (Some ''../x.wav'')
       = Inl (HTTPException 400 ''path traversal in audio file paths is not allowed'')
   \<and> validate_audio_path app_env (Some ''/etc/passwd'')
       = Inl (HTTPException 400 ''absolute audio file paths are not allowed'')
   \<and> validate_audio_path app_env (Some ''/tmp/foo/x.wav'') = Inr (Some ''/tmp/foo/x.wav'')"
proof -
  have t: "realpath app_env (gettempdir app_env) = Inr ''/tmp''"
    and wf: "isabs ''/tmp''" "''/tmp'' = sep # join_sep (components ''/tmp'')"
    by code_simp+
  have a: "''clip.wav'' \<noteq> []"
    "realpath app_env ''clip.wav'' = Inr ''/home/user/app/clip.wav''"
    "isabs ''/home/user/app/clip.wav''"
    "\<not> inside_directory ''/tmp'' ''/home/user/app/clip.wav''"
    "''clip.wav'' \<noteq> ''..''" "sep \<notin> set ''clip.wav''"
    by code_simp+
  have b: "''song.wav'' \<noteq> []"
    "realpath app_env ''song.wav'' = Inr ''/home/user/app/song.wav''"
    "isabs ''/home/user/app/song.wav''"
    "\<not> inside_directory ''/tmp'' ''/home/user/app/song.wav''"
    "''song.wav'' \<noteq> ''..''" "sep \<notin> set ''song.wav''"
    by code_simp+
  have c: "''../x.wav'' \<noteq> []"
    "realpath app_env ''../x.wav'' = Inr ''/home/user/x.wav''"
    "isabs ''/home/user/x.wav''"
    "\<not> inside_directory ''/tmp'' ''/home/user/x.wav''"
    by code_simp+
  have d: "''/etc/passwd'' \<noteq> []"
    "realpath app_env ''/etc/passwd'' = Inr ''/etc/passwd''"
    "isabs ''/etc/passwd''"
    "\<not> inside_directory ''/tmp'' ''/etc/passwd''"
    by code_simp+
  have e: "''/tmp/foo/x.wav'' \<noteq> []"
    "realpath app_env ''/tmp/foo/x.wav'' = Inr ''/tmp/foo/x.wav''"
    "isabs ''/tmp/foo/x.wav''"
    "inside_directory ''/tmp'' ''/tmp/foo/x.wav''"
    by code_simp+
  note th = validate_audio_path_accepts_and_rejects [where env = app_env and t = "''/tmp''"]
  from th [of "''clip.wav''" "''/home/user/app/clip.wav''" "''clip.wav''"] t wf a
  have 1: "validate_audio_path app_env (Some ''clip.wav'') = Inr (Some ''clip.wav'')"
    by simp
  from th [of "''song.wav''" "''/home/user/app/song.wav''" "''song.wav''"] t wf b
  have 2: "validate_audio_path app_env (Some ''song.wav'') = Inr (Some ''song.wav'')"
    by simp
  from th [of "''../x.wav''" "''/home/user/x.wav''"] t wf c
  have 3: "validate_audio_path app_env (Some ''../x.wav'')
       = Inl (HTTPException 400 ''path traversal in audio file paths is not allowed'')"
    by simp
  from th [of "''/etc/passwd''" "''/etc/passwd''"] t wf d
  have 4: "validate_audio_path app_env (Some ''/etc/passwd'')
       = Inl (HTTPException 400 ''absolute audio file paths are not allowed'')"
    by simp
  from th [of "''/tmp/foo/x.wav''" "''/tmp/foo/x.wav''"] t wf e
  have 5: "validate_audio_path app_env (Some ''/tmp/foo/x.wav'') = Inr (Some ''/tmp/foo/x.wav'')"
    by simp
  from 1 2 3 4 5 show ?thesis
    by blast
qed

subsection \<open>Precedence of the temporary directory\<close>

text \<open>
  Claim C10. A non-empty path whose real path lies in the temporary directory is
  accepted, whether it is relative or absolute and whatever segments it has, and the
  real path is returned; \<open>None\<close> and the empty string give \<open>None\<close>, and nothing is
  raised.
\<close>

theorem temp_membership_takes_precedence:
  "(path \<noteq> [] \<and> realpath env (gettempdir env) = Inr t \<and> realpath env path = Inr r
      \<and> is_in_temp t r \<longrightarrow>
      validate_audio_path env (Some path) = Inr (Some r))
   \<and> validate_audio_path env None = Inr None
   \<and> validate_audio_path env (Some []) = Inr None"
  by (simp add: validate_audio_path_def)

text \<open>
  The theorem at \<open>../x.wav\<close> from \<open>/tmp/work\<close>: a relative path with a \<open>..\<close> component,
  accepted as \<open>/tmp/x.wav\<close>.
\<close>

theorem temp_membership_precedence_witness:
  "\<not> isabs ''../x.wav''
   \<and> ''..'' \<in> set (split_sep (normpath ''../x.wav''))
   \<and> realpath work_env (gettempdir work_env) = Inr ''/tmp''
   \<and> realpath work_env ''../x.wav'' = Inr ''/tmp/x.wav''
   \<and> is_in_temp ''/tmp'' ''/tmp/x.wav''
   \<and> validate_audio_path work_env (Some ''../x.wav'') = Inr (Some ''/tmp/x.wav'')"
proof -
  have h1: "\<not> isabs ''../x.wav''"
    and h2: "''..'' \<in> set (split_sep (normpath ''../x.wav''))"
    and h3: "realpath work_env (gettempdir work_env) = Inr ''/tmp''"
    and h4: "realpath work_env ''../x.wav'' = Inr ''/tmp/x.wav''"
    and h5: "is_in_temp ''/tmp'' ''/tmp/x.wav''"
    by code_simp+
  have h6: "''../x.wav'' \<noteq> []"
    by simp
  from temp_membership_takes_precedence [of "''../x.wav''" work_env "''/tmp''" "''/tmp/x.wav''"]
       h1 h2 h3 h4 h5 h6
  show ?thesis
    by simp
qed

section \<open>Properties of the upload persistence\<close>

declare write_chunks.simps [simp del]

lemma io_log_fields [simp]:
  "io_calls (io_log c s) = io_calls s @ [c]"
  "files (io_log c s) = files s"
  "upload (io_log c s) = upload s"
  by (simp_all add: io_log_def)

lemma file_write_fields [simp]:
  "io_calls (file_write p chunk s) = io_calls s @ [FileWrite chunk]"
  "upload (file_write p chunk s) = upload s"
  "files (file_write p chunk s) p = Some ((case files s p of None \<Rightarrow> [] | Some old \<Rightarrow> old) @ chunk)"
  by (simp_all add: file_write_def)

lemma upload_read_chunk:
  "fst (upload_read u n) = take n (drop (offset u) (payload u))"
  by (auto simp: upload_read_def Let_def min_def)

lemma upload_read_offset:
  "offset (snd (upload_read u n)) = (if offset u \<ge> length (payload u) then offset u else min (offset u + n) (length (payload u)))"
  "payload (snd (upload_read u n)) = payload u"
  "closed (snd (upload_read u n)) = closed u"
  by (auto simp: upload_read_def Let_def)

lemma write_chunks_calls:
  "\<exists>new. io_calls (snd (write_chunks faults path n s)) = io_calls s @ new \<and> (\<forall>c \<in> set new. is_transfer c)"
proof (induction faults path n s rule: write_chunks.induct)
  case (1 faults path n s)
  show ?case
  proof (cases "read_fault faults n \<noteq> None")
    case True
    then show ?thesis
      by (subst write_chunks.simps) (simp add: is_transfer_def)
  next
    case rd: False
    let ?chunk = "fst (upload_read (upload s) (1024 * 1024))"
    let ?s1 = "io_log (UploadRead (1024 * 1024)) (s\<lparr>upload := snd (upload_read (upload s) (1024 * 1024))\<rparr>)"
    show ?thesis
    proof (cases "?chunk = []")
      case True
      with rd show ?thesis
        by (subst write_chunks.simps) (simp add: is_transfer_def Let_def)
    next
      case ne: False
      show ?thesis
      proof (cases "write_fault faults n \<noteq> None")
        case True
        with rd ne show ?thesis
          by (subst write_chunks.simps) (simp add: is_transfer_def Let_def)
      next
        case wr: False
        from "1.IH" [OF rd refl refl ne wr] obtain new where
          n: "io_calls (snd (write_chunks faults path (Suc n) (file_write path ?chunk ?s1)))
                = io_calls (file_write path ?chunk ?s1) @ new"
          and t: "\<forall>c \<in> set new. is_transfer c"
          by blast
        have "io_calls (snd (write_chunks faults path n s))
                = io_calls s @ ([UploadRead (1024 * 1024), FileWrite ?chunk] @ new)"
          using rd ne wr n by (subst write_chunks.simps) (simp add: Let_def)
        moreover have "\<forall>c \<in> set ([UploadRead (1024 * 1024), FileWrite ?chunk] @ new). is_transfer c"
          using t by (simp add: is_transfer_def)
        ultimately show ?thesis
          by blast
      qed
    qed
  qed
qed


lemma drop_min_offset: "drop (min (a + n) (length xs)) xs = drop n (drop a xs)"
proof (cases "a + n \<le> length xs")
  case True
  then show ?thesis
    by (simp add: min_def add.commute)
next
  case False
  then show ?thesis
    by (simp add: min_def)
qed

lemma chunk_then_rest:
  "take n (drop a xs) @ drop (min (a + n) (length xs)) xs = drop a xs"
  unfolding drop_min_offset by (rule append_take_drop_id)

lemma write_chunks_result:
  "files s path = Some old \<Longrightarrow>
   payload (upload (snd (write_chunks faults path n s))) = payload (upload s)
   \<and> closed (upload (snd (write_chunks faults path n s))) = closed (upload s)
   \<and> files (snd (write_chunks faults path n s)) path \<noteq> None
   \<and> (fst (write_chunks faults path n s) = None \<longrightarrow>
        files (snd (write_chunks faults path n s)) path
          = Some (old @ drop (offset (upload s)) (payload (upload s))))
   \<and> (\<forall>msg. fst (write_chunks faults path n s) = Some msg \<longrightarrow>
        (\<exists>k. read_fault faults k = Some msg) \<or> (\<exists>k. write_fault faults k = Some msg))
   \<and> ((\<forall>k. read_fault faults k = None) \<and> (\<forall>k. write_fault faults k = None) \<longrightarrow>
        fst (write_chunks faults path n s) = None)"
proof (induction faults path n s arbitrary: old rule: write_chunks.induct)
  case (1 faults path n s)
  note f = \<open>files s path = Some old\<close>
  show ?case
  proof (cases "read_fault faults n \<noteq> None")
    case True
    then have "write_chunks faults path n s = (read_fault faults n, io_log (UploadRead (1024 * 1024)) s)"
      by (subst write_chunks.simps) simp
    with True f show ?thesis
      by auto
  next
    case rd: False
    let ?chunk = "fst (upload_read (upload s) (1024 * 1024))"
    let ?s1 = "io_log (UploadRead (1024 * 1024)) (s\<lparr>upload := snd (upload_read (upload s) (1024 * 1024))\<rparr>)"
    show ?thesis
    proof (cases "?chunk = []")
      case True
      with rd have e: "write_chunks faults path n s = (None, ?s1)"
        by (subst write_chunks.simps) (simp add: Let_def)
      from True have "drop (offset (upload s)) (payload (upload s)) = []"
        by (simp add: upload_read_chunk)
      with e f show ?thesis
        by (simp add: upload_read_offset)
    next
      case ne: False
      show ?thesis
      proof (cases "write_fault faults n \<noteq> None")
        case True
        with rd ne have "write_chunks faults path n s = (write_fault faults n, io_log (FileWrite ?chunk) ?s1)"
          by (subst write_chunks.simps) (simp add: Let_def)
        with True f show ?thesis
          by (auto simp: upload_read_offset)
      next
        case wr: False
        let ?s2 = "file_write path ?chunk ?s1"
        have e: "write_chunks faults path n s = write_chunks faults path (Suc n) ?s2"
          using rd ne wr by (subst write_chunks.simps) (simp add: Let_def)
        have f2: "files ?s2 path = Some (old @ ?chunk)"
          using f by simp
        have u2: "upload ?s2 = snd (upload_read (upload s) (1024 * 1024))"
          by simp
        from ne have lt: "\<not> length (payload (upload s)) \<le> offset (upload s)"
          by (simp add: upload_read_chunk)
        have o2: "offset (upload ?s2)
                    = min (offset (upload s) + 1024 * 1024) (length (payload (upload s)))"
          using lt by (simp add: upload_read_offset)
        have p2: "payload (upload ?s2) = payload (upload s)"
          and c2: "closed (upload ?s2) = closed (upload s)"
          by (simp_all add: upload_read_offset)
        have rest: "?chunk @ drop (offset (upload ?s2)) (payload (upload ?s2))
                      = drop (offset (upload s)) (payload (upload s))"
          using o2 p2 chunk_then_rest [of "1024 * 1024" "offset (upload s)" "payload (upload s)"]
          by (simp add: upload_read_chunk)
        from "1.IH" [OF rd refl refl ne wr f2] rest p2 c2 show ?thesis
          by (simp add: e)
      qed
    qed
  qed
qed


lemma is_transfer_write_phase: "is_transfer c \<Longrightarrow> is_write_phase c"
  by (cases c) (simp_all add: is_transfer_def is_write_phase_def)

lemma try_write_calls:
  "\<exists>wp. io_calls (snd (try_write faults path s)) = io_calls s @ wp
        \<and> (\<forall>c \<in> set wp. is_write_phase c)"
proof (cases "open_fault faults \<noteq> None")
  case True
  then show ?thesis
    by (simp add: try_write_def is_write_phase_def)
next
  case False
  let ?s1 = "io_log (FileOpen path) (s\<lparr>files := (files s)(path \<mapsto> [])\<rparr>)"
  from write_chunks_calls [of faults path 0 ?s1] obtain new where
    n: "io_calls (snd (write_chunks faults path 0 ?s1)) = io_calls ?s1 @ new"
    and t: "\<forall>c \<in> set new. is_transfer c"
    by blast
  have "io_calls (snd (try_write faults path s)) = io_calls s @ ([FileOpen path] @ new @ [FileClose])"
    using False n by (simp add: try_write_def case_prod_beta)
  moreover have "\<forall>c \<in> set ([FileOpen path] @ new @ [FileClose]). is_write_phase c"
    using t is_transfer_write_phase by (auto simp: is_write_phase_def [of "FileOpen path"] is_write_phase_def [of FileClose])
  ultimately show ?thesis
    by blast
qed

lemma try_write_result:
  "payload (upload (snd (try_write faults path s))) = payload (upload s)
   \<and> closed (upload (snd (try_write faults path s))) = closed (upload s)
   \<and> (files s path \<noteq> None \<longrightarrow> files (snd (try_write faults path s)) path \<noteq> None)
   \<and> (fst (try_write faults path s) = None \<longrightarrow>
        files (snd (try_write faults path s)) path
          = Some (drop (offset (upload s)) (payload (upload s))))
   \<and> (\<forall>msg. fst (try_write faults path s) = Some msg \<longrightarrow>
        open_fault faults = Some msg \<or> (\<exists>k. read_fault faults k = Some msg)
          \<or> (\<exists>k. write_fault faults k = Some msg))
   \<and> (open_fault faults = None \<and> (\<forall>k. read_fault faults k = None)
        \<and> (\<forall>k. write_fault faults k = None) \<longrightarrow>
        fst (try_write faults path s) = None)"
proof (cases "open_fault faults \<noteq> None")
  case True
  then show ?thesis
    by (auto simp: try_write_def)
next
  case False
  let ?s1 = "io_log (FileOpen path) (s\<lparr>files := (files s)(path \<mapsto> [])\<rparr>)"
  have f: "files ?s1 path = Some []"
    by simp
  have u: "upload ?s1 = upload s"
    by simp
  have e: "try_write faults path s
             = (fst (write_chunks faults path 0 ?s1), io_log FileClose (snd (write_chunks faults path 0 ?s1)))"
    using False by (simp add: try_write_def case_prod_beta)
  from write_chunks_result [OF f, of faults 0] show ?thesis
    unfolding e u using False by simp
qed

lemma save_after_mkstemp:
  "mkstemp env (prefix @ ''_'') (upload_suffix env s) = Inr path \<Longrightarrow>
   os_close_fault faults = None \<Longrightarrow>
   save_upload_to_temp env faults prefix s =
     (case try_write faults path
             (io_log OsClose
                (io_log (Mkstemp (prefix @ ''_'') (upload_suffix env s)) s
                   \<lparr>files := (files s)(path \<mapsto> [])\<rparr>)) of
        (None, s2) \<Rightarrow> (Inr path, upload_close faults s2)
      | (Some msg, s2) \<Rightarrow> (Inl msg, upload_close faults (os_remove faults path s2)))"
  by (simp add: save_upload_to_temp_def Let_def)

lemma first_write_fault:
  "mkstemp env (prefix @ ''_'') (upload_suffix env s) = Inr path \<Longrightarrow>
   os_close_fault faults = None \<Longrightarrow>
   open_fault faults = None \<Longrightarrow> read_fault faults 0 = None \<Longrightarrow>
   write_fault faults 0 = Some msg \<Longrightarrow>
   offset (upload s) < length (payload (upload s)) \<Longrightarrow>
   fst (save_upload_to_temp env faults prefix s) = Inl msg"
proof -
  assume mk: "mkstemp env (prefix @ ''_'') (upload_suffix env s) = Inr path"
    and oc: "os_close_fault faults = None"
  assume a: "open_fault faults = None" "read_fault faults 0 = None"
    "write_fault faults 0 = Some msg" "offset (upload s) < length (payload (upload s))"
  have w: "fst (write_chunks faults p 0 s') = Some msg"
    if "upload s' = upload s" for p s'
    using a that
    by (subst write_chunks.simps) (simp add: Let_def upload_read_chunk)
  have tw: "fst (try_write faults p s') = Some msg" if "upload s' = upload s" for p s'
    using a that w [of "io_log (FileOpen p) (s'\<lparr>files := (files s')(p \<mapsto> [])\<rparr>)" p]
    by (simp add: try_write_def case_prod_beta)
  define s1 where
    "s1 = io_log OsClose
            (io_log (Mkstemp (prefix @ ''_'') (upload_suffix env s)) s
               \<lparr>files := (files s)(path \<mapsto> [])\<rparr>)"
  obtain raised s2 where e: "try_write faults path s1 = (raised, s2)"
    by (cases "try_write faults path s1")
  have "upload s1 = upload s"
    by (simp add: s1_def)
  from tw [OF this, of path] e have "raised = Some msg"
    by simp
  with e show ?thesis
    unfolding save_after_mkstemp [OF mk oc] s1_def [symmetric] by simp
qed

text \<open>
  Once \<open>mkstemp\<close> and \<open>os.close(fd)\<close> have returned, for every upload and every failure
  of \<open>open\<close>, \<open>read\<close>, \<open>write\<close>, \<open>os.remove\<close> and \<open>upload.close\<close>: \<open>upload.close()\<close> is
  called exactly once, as the last call, and the upload is closed unless that call
  itself fails. When the function raises, \<open>os.remove(path)\<close> has been called exactly
  once, just before the upload is closed, the file is gone unless the removal itself
  failed, and the exception is the one raised by \<open>open\<close>, \<open>read\<close> or \<open>write\<close>. When it
  returns, it returns the path of the temporary file, the file is not removed and holds
  the bytes of the upload from its read offset on. With no failure of \<open>open\<close>, \<open>read\<close>
  and \<open>write\<close> it returns.
\<close>

lemma save_upload_to_temp_cleans_up:
  "mkstemp env (prefix @ ''_'') (upload_suffix env s) = Inr path \<Longrightarrow>
   os_close_fault faults = None \<Longrightarrow>
   (let r = save_upload_to_temp env faults prefix s;
        new = drop (length (io_calls s)) (io_calls (snd r))
    in io_calls (snd r) = io_calls s @ new
     \<and> count_io UploadClose new = 1
     \<and> last new = UploadClose
     \<and> (close_fault faults = None \<longrightarrow> closed (upload (snd r)))
     \<and> (\<forall>msg. fst r = Inl msg \<longrightarrow>
            drop (length new - 2) new = [OsRemove path, UploadClose]
          \<and> count_io (OsRemove path) new = 1
          \<and> (remove_fault faults = None \<longrightarrow> files (snd r) path = None)
          \<and> (open_fault faults = Some msg \<or> (\<exists>k. read_fault faults k = Some msg)
               \<or> (\<exists>k. write_fault faults k = Some msg)))
     \<and> (\<forall>p. fst r = Inr p \<longrightarrow>
            p = path
          \<and> OsRemove path \<notin> set new
          \<and> files (snd r) path = Some (drop (offset (upload s)) (payload (upload s))))
     \<and> (open_fault faults = None \<and> (\<forall>k. read_fault faults k = None)
          \<and> (\<forall>k. write_fault faults k = None) \<longrightarrow> fst r = Inr path))"
proof -
  assume mk: "mkstemp env (prefix @ ''_'') (upload_suffix env s) = Inr path"
    and oc: "os_close_fault faults = None"
  define suffix where "suffix = upload_suffix env s"
  define s1 where
    "s1 = io_log OsClose
            (io_log (Mkstemp (prefix @ ''_'') suffix) s\<lparr>files := (files s)(path \<mapsto> [])\<rparr>)"
  obtain raised s2 where tw: "try_write faults path s1 = (raised, s2)"
    by (cases "try_write faults path s1")
  have c1: "io_calls s1 = io_calls s @ [Mkstemp (prefix @ ''_'') suffix, OsClose]"
    and u1: "upload s1 = upload s" and f1: "files s1 path \<noteq> None"
    by (simp_all add: s1_def)
  from try_write_calls [of faults path s1] tw obtain wp where
    c2: "io_calls s2 = io_calls s1 @ wp" and wp: "\<forall>c \<in> set wp. is_write_phase c"
    by auto
  from wp have nwp: "UploadClose \<notin> set wp" "OsRemove path \<notin> set wp"
    by (auto simp: is_write_phase_def)
  then have cnt: "filter (\<lambda>x. x = UploadClose) wp = []" "filter (\<lambda>x. x = OsRemove path) wp = []"
    by (auto simp: filter_empty_conv)
  from try_write_result [of faults path s1] tw u1 f1 have
    r2: "closed (upload s2) = closed (upload s)"
      "files s2 path \<noteq> None"
      "raised = None \<longrightarrow> files s2 path = Some (drop (offset (upload s)) (payload (upload s)))"
      "\<forall>msg. raised = Some msg \<longrightarrow>
         open_fault faults = Some msg \<or> (\<exists>k. read_fault faults k = Some msg)
           \<or> (\<exists>k. write_fault faults k = Some msg)"
      "open_fault faults = None \<and> (\<forall>k. read_fault faults k = None)
         \<and> (\<forall>k. write_fault faults k = None) \<longrightarrow> raised = None"
    by simp_all
  have e: "save_upload_to_temp env faults prefix s =
             (case raised of
                None \<Rightarrow> (Inr path, upload_close faults s2)
              | Some msg \<Rightarrow> (Inl msg, upload_close faults (os_remove faults path s2)))"
    unfolding save_after_mkstemp [OF mk oc] suffix_def [symmetric] s1_def [symmetric] tw
    by (simp split: option.splits)
  show ?thesis
  proof (cases raised)
    case None
    with e c1 c2 cnt nwp r2 show ?thesis
      by (simp add: Let_def upload_close_def count_io_def)
  next
    case (Some msg)
    with e c1 c2 cnt nwp r2 show ?thesis
      by (simp add: Let_def upload_close_def os_remove_def count_io_def)
  qed
qed

text \<open>
  The upload of the test module (\<open>abc123\<close> to \<open>mock/path/sample.wav\<close>), without
  failure and with a disk that is full at the first write.
\<close>

lemma save_upload_to_temp_test_scenario:
  "fst (save_upload_to_temp test_env no_faults ''ref_audio'' test_state)
     = Inr ''mock/path/sample.wav''
   \<and> files (snd (save_upload_to_temp test_env no_faults ''ref_audio'' test_state))
         ''mock/path/sample.wav'' = Some ''abc123''
   \<and> closed (upload (snd (save_upload_to_temp test_env no_faults ''ref_audio'' test_state)))
   \<and> fst (save_upload_to_temp test_env disk_full ''ref_audio'' test_state) = Inl ''disk full''
   \<and> files (snd (save_upload_to_temp test_env disk_full ''ref_audio'' test_state))
         ''mock/path/sample.wav'' = None
   \<and> count_io UploadClose
         (io_calls (snd (save_upload_to_temp test_env disk_full ''ref_audio'' test_state))) = 1"
proof -
  have p: "mkstemp test_env (''ref_audio'' @ ''_'') (upload_suffix test_env test_state)
             = Inr ''mock/path/sample.wav''"
    by (simp add: test_env_def)
  have n: "open_fault no_faults = None \<and> (\<forall>k. read_fault no_faults k = None)
           \<and> (\<forall>k. write_fault no_faults k = None)" and c: "close_fault no_faults = None"
    and oc: "os_close_fault no_faults = None"
    by (simp_all add: no_faults_def)
  have u: "drop (offset (upload test_state)) (payload (upload test_state)) = ''abc123''"
    by (simp add: test_state_def)
  note t = save_upload_to_temp_cleans_up [OF p oc, unfolded Let_def]
  from t n have r: "fst (save_upload_to_temp test_env no_faults ''ref_audio'' test_state)
                      = Inr ''mock/path/sample.wav''"
    by blast
  from t r have f: "files (snd (save_upload_to_temp test_env no_faults ''ref_audio'' test_state))
                      ''mock/path/sample.wav''
                    = Some (drop (offset (upload test_state)) (payload (upload test_state)))"
    by blast
  from t c have cl:
    "closed (upload (snd (save_upload_to_temp test_env no_faults ''ref_audio'' test_state)))"
    by blast
  have d: "open_fault disk_full = None" "read_fault disk_full 0 = None"
    "write_fault disk_full 0 = Some ''disk full''" "remove_fault disk_full = None"
    and oc': "os_close_fault disk_full = None"
    by (simp_all add: disk_full_def no_faults_def)
  have o: "offset (upload test_state) < length (payload (upload test_state))"
    and l: "length (io_calls test_state) = 0"
    by (simp_all add: test_state_def)
  have r': "fst (save_upload_to_temp test_env disk_full ''ref_audio'' test_state)
              = Inl ''disk full''"
    using p oc' d(1-3) o by (rule first_write_fault)
  note t' = save_upload_to_temp_cleans_up [OF p oc', unfolded Let_def l drop_0]
  from t' r' d(4) have f':
    "files (snd (save_upload_to_temp test_env disk_full ''ref_audio'' test_state))
       ''mock/path/sample.wav'' = None"
    by blast
  from t' have c': "count_io UploadClose
         (io_calls (snd (save_upload_to_temp test_env disk_full ''ref_audio'' test_state))) = 1"
    by blast
  from r f cl r' f' c' show ?thesis
    unfolding u by blast
qed

text \<open>
  Claim C9 holds on every path on which \<open>mkstemp\<close> and \<open>os.close(fd)\<close> return, as
  shown above, and fails on the code otherwise. When \<open>mkstemp\<close> raises, the exception
  leaves \<open>save_upload_to_temp\<close> after that one call: \<open>upload.close()\<close> is not called
  and the upload is left as it was, open if it was open.
\<close>

theorem upload_left_open_when_mkstemp_raises:
  "mkstemp env (prefix @ ''_'') (upload_suffix env s) = Inl msg \<Longrightarrow>
   (let r = save_upload_to_temp env faults prefix s;
        new = drop (length (io_calls s)) (io_calls (snd r))
    in fst r = Inl msg
     \<and> new = [Mkstemp (prefix @ ''_'') (upload_suffix env s)]
     \<and> count_io UploadClose new = 0
     \<and> upload (snd r) = upload s)"
  by (simp add: save_upload_to_temp_def Let_def count_io_def)

text \<open>
  The theorem at an upload whose file name has an extension of 300 characters, which
  the client chooses: \<open>mkstemp\<close> raises \<open>OSError\<close> for the name, the upload stays open.
\<close>

theorem upload_left_open_witness:
  "upload_suffix tmp_env long_name_state = long_extension
   \<and> mkstemp tmp_env (''ref_audio'' @ ''_'') long_extension = Inl ''[Errno 36] File name too long''
   \<and> fst (save_upload_to_temp tmp_env no_faults ''ref_audio'' long_name_state)
       = Inl ''[Errno 36] File name too long''
   \<and> io_calls (snd (save_upload_to_temp tmp_env no_faults ''ref_audio'' long_name_state))
       = [Mkstemp ''ref_audio_'' long_extension]
   \<and> \<not> closed (upload (snd (save_upload_to_temp tmp_env no_faults ''ref_audio'' long_name_state)))"
proof -
  have sx: "pathlib_suffix (CHR ''a'' # long_extension) = long_extension"
    unfolding long_extension_def by code_simp
  have s: "upload_suffix tmp_env long_name_state = long_extension"
    by (simp add: upload_suffix_def tmp_env_def long_name_state_def filename_or_empty_def sx)
  have m: "mkstemp tmp_env (''ref_audio'' @ ''_'') long_extension
             = Inl ''[Errno 36] File name too long''"
    by (simp add: tmp_env_def long_extension_def)
  have l: "length (io_calls long_name_state) = 0"
    and c: "\<not> closed (upload long_name_state)"
    by (simp_all add: long_name_state_def)
  from m s have h: "mkstemp tmp_env (''ref_audio'' @ ''_'') (upload_suffix tmp_env long_name_state)
                      = Inl ''[Errno 36] File name too long''"
    by simp
  note t = upload_left_open_when_mkstemp_raises
             [OF h, of no_faults, unfolded Let_def l drop_0 s]
  from t have a1: "fst (save_upload_to_temp tmp_env no_faults ''ref_audio'' long_name_state)
                    = Inl ''[Errno 36] File name too long''"
    and a2: "io_calls (snd (save_upload_to_temp tmp_env no_faults ''ref_audio'' long_name_state))
              = [Mkstemp (''ref_audio'' @ ''_'') long_extension]"
    and a3: "upload (snd (save_upload_to_temp tmp_env no_faults ''ref_audio'' long_name_state))
              = upload long_name_state"
    by blast+
  from a2 have a2': "io_calls (snd (save_upload_to_temp tmp_env no_faults ''ref_audio'' long_name_state))
              = [Mkstemp ''ref_audio_'' long_extension]"
    by simp
  from s m a1 a2' a3 c show ?thesis
    by simp
qed

end
